theory Spec2Isabelle
  imports Complex_Main "HOL-Library.Log_Nat"
begin

section \<open>Numbers, fonts and the drawing surface\<close>

text \<open>
  The program is \<^verbatim>\<open>js/script.js\<close>. A JavaScript number is modelled as a \<open>real\<close>:
  arithmetic is exact, and NaN and the infinities are not values of the model. The one
  place where the rounding of doubles decides what the program does, the size ladder of
  the fit, is modelled a second time in double arithmetic (\<open>fit_loop_double\<close>). Pixel
  dimensions of images and canvases are integers. A string is a list of characters and
  \<^verbatim>\<open>.length\<close> is the length of that list.
\<close>

definition round_js :: "real \<Rightarrow> int" where
  \<comment> \<open>\<^verbatim>\<open>Math.round\<close>: the nearest integer, a tie going up.\<close>
  "round_js x = \<lfloor>x + 1 / 2\<rfloor>"

text \<open>
  The font of a surface is set from the template
  \<^verbatim>\<open>`${weight} ${size}px '${family}', system-ui`\<close>; the model keeps its three holes.
\<close>

record font_spec =
  fweight :: string
  fsize :: real
  ffamily :: string

datatype baseline = Alphabetic | Top

datatype blend = SourceOver | Multiply

record image =
  iwidth :: int
  iheight :: int

record canvas_dims =
  cwidth :: int
  cheight :: int

text \<open>The drawing state of a 2D context: what \<^verbatim>\<open>save()\<close> pushes and \<^verbatim>\<open>restore()\<close> pops.\<close>

record dstate =
  font :: font_spec
  fillStyle :: string
  textBaseline :: baseline
  globalAlpha :: real
  globalCompositeOperation :: blend

text \<open>
  Every call on the surface is logged, a drawing call with the drawing state it was
  made in. An assignment to a property of the surface takes effect: the colours and font
  strings the program assigns are well-formed (the tint comes from a colour input, the
  other colours from \<open>colorLuminance\<close> and a constant).
\<close>

datatype call =
    Save
  | Restore
  | FillRect dstate real real real real
  | DrawImage dstate image real real real real
  | FillText dstate string real real
  | MeasureText font_spec string

record ctx2d =
  cur :: dstate
  stack :: "dstate list"
  calls :: "call list"

text \<open>
  The metrics provider is the browser's text shaper: the advance width of a string in a
  font. It is a parameter of everything that measures.
\<close>

type_synonym metrics = "font_spec \<Rightarrow> string \<Rightarrow> real"

definition emit :: "call \<Rightarrow> ctx2d \<Rightarrow> ctx2d" where
  "emit k c = c\<lparr>calls := calls c @ [k]\<rparr>"

definition set_font :: "font_spec \<Rightarrow> ctx2d \<Rightarrow> ctx2d" where
  "set_font f c = c\<lparr>cur := (cur c)\<lparr>font := f\<rparr>\<rparr>"

definition set_fillStyle :: "string \<Rightarrow> ctx2d \<Rightarrow> ctx2d" where
  "set_fillStyle s c = c\<lparr>cur := (cur c)\<lparr>fillStyle := s\<rparr>\<rparr>"

definition set_textBaseline :: "baseline \<Rightarrow> ctx2d \<Rightarrow> ctx2d" where
  "set_textBaseline b c = c\<lparr>cur := (cur c)\<lparr>textBaseline := b\<rparr>\<rparr>"

definition set_globalAlpha :: "real \<Rightarrow> ctx2d \<Rightarrow> ctx2d" where
  "set_globalAlpha a c = c\<lparr>cur := (cur c)\<lparr>globalAlpha := a\<rparr>\<rparr>"

definition set_globalCompositeOperation :: "blend \<Rightarrow> ctx2d \<Rightarrow> ctx2d" where
  "set_globalCompositeOperation b c = c\<lparr>cur := (cur c)\<lparr>globalCompositeOperation := b\<rparr>\<rparr>"

definition save :: "ctx2d \<Rightarrow> ctx2d" where
  "save c = emit Save (c\<lparr>stack := cur c # stack c\<rparr>)"

definition restore :: "ctx2d \<Rightarrow> ctx2d" where
  \<comment> \<open>With nothing saved, \<^verbatim>\<open>restore()\<close> changes no state.\<close>
  "restore c =
     emit Restore (case stack c of [] \<Rightarrow> c | s # ss \<Rightarrow> c\<lparr>cur := s, stack := ss\<rparr>)"

definition fillRect :: "real \<Rightarrow> real \<Rightarrow> real \<Rightarrow> real \<Rightarrow> ctx2d \<Rightarrow> ctx2d" where
  "fillRect x y w h c = emit (FillRect (cur c) x y w h) c"

definition drawImage :: "image \<Rightarrow> real \<Rightarrow> real \<Rightarrow> real \<Rightarrow> real \<Rightarrow> ctx2d \<Rightarrow> ctx2d" where
  "drawImage im x y w h c = emit (DrawImage (cur c) im x y w h) c"

definition fillText :: "string \<Rightarrow> real \<Rightarrow> real \<Rightarrow> ctx2d \<Rightarrow> ctx2d" where
  "fillText s x y c = emit (FillText (cur c) s x y) c"

definition measureText :: "metrics \<Rightarrow> ctx2d \<Rightarrow> string \<Rightarrow> real \<times> ctx2d" where
  \<comment> \<open>\<^verbatim>\<open>ctx.measureText(text).width\<close>, in the font the surface has now.\<close>
  "measureText M c s = (M (font (cur c)) s, emit (MeasureText (font (cur c)) s) c)"

fun is_measure :: "call \<Rightarrow> bool" where
  "is_measure (MeasureText f s) = True"
| "is_measure k = False"

definition measure_calls :: "ctx2d \<Rightarrow> nat" where
  "measure_calls c = length (filter is_measure (calls c))"

section \<open>Tracking engine\<close>

text \<open>
  \<^verbatim>\<open>measureWithTrackingForContext(renderCtx, text, letter)\<close>; \<^verbatim>\<open>!letter\<close> holds of the
  number 0 only.
\<close>

definition measureWithTrackingForContext ::
  "metrics \<Rightarrow> ctx2d \<Rightarrow> string \<Rightarrow> real \<Rightarrow> real \<times> ctx2d" where
  "measureWithTrackingForContext M renderCtx s letter =
     (if letter = 0 then measureText M renderCtx s
      else
        let (mwidth, c') = measureText M renderCtx s;
            w = mwidth + letter * real_of_int (max 0 (int (length s) - 1))
        in (w, c'))"

text \<open>
  \<^verbatim>\<open>measureWithTracking(text, letter)\<close> is the same code on the global surface
  \<^verbatim>\<open>ctx\<close>, which the model passes in.
\<close>

definition measureWithTracking :: "metrics \<Rightarrow> ctx2d \<Rightarrow> string \<Rightarrow> real \<Rightarrow> real \<times> ctx2d" where
  "measureWithTracking M ctx s letter =
     (if letter = 0 then measureText M ctx s
      else
        let (mwidth, c') = measureText M ctx s;
            w = mwidth + letter * real_of_int (max 0 (int (length s) - 1))
        in (w, c'))"

text \<open>
  \<^verbatim>\<open>drawTrackedTextForContext\<close>: one call for the whole string without tracking,
  otherwise one call for each character, the cursor moving on by the character's own
  width plus the tracking.
\<close>

fun draw_chars :: "metrics \<Rightarrow> string \<Rightarrow> real \<Rightarrow> real \<Rightarrow> real \<Rightarrow> ctx2d \<Rightarrow> ctx2d" where
  "draw_chars M [] x y letter c = c"
| "draw_chars M (ch # rest) x y letter c =
     (let c1 = fillText [ch] x y c;
          (chw, c2) = measureText M c1 [ch]
      in draw_chars M rest (x + (chw + letter)) y letter c2)"

definition drawTrackedTextForContext ::
  "metrics \<Rightarrow> ctx2d \<Rightarrow> string \<Rightarrow> real \<Rightarrow> real \<Rightarrow> real \<Rightarrow> ctx2d" where
  "drawTrackedTextForContext M renderCtx s x y letter =
     (if letter = 0 then fillText s x y renderCtx
      else draw_chars M s x y letter renderCtx)"

section \<open>Fit solver\<close>

record fit_result =
  fit_size :: real
  fit_width :: real

text \<open>
  The loop of \<^verbatim>\<open>fitTextForContext\<close>; its state is the size, the last measured width and
  the surface. Here \<^verbatim>\<open>size -= 2\<close> is the exact difference, which is what the source
  computes on every ladder whose subtractions are exact in double arithmetic; the ladder
  as the source computes it on all finite sizes, rounding included, is \<open>fit_loop_double\<close>
  below, and whether the loop returns is settled there.
\<close>

function fit_loop ::
  "metrics \<Rightarrow> string \<Rightarrow> real \<Rightarrow> real \<Rightarrow> string \<Rightarrow> string \<Rightarrow> real \<Rightarrow> real \<Rightarrow> real \<Rightarrow> ctx2d
     \<Rightarrow> fit_result \<times> ctx2d" where
  "fit_loop M s maxWidth minSize family weight letter sz w c =
     (if w > maxWidth \<and> sz > minSize then
        (let sz' = sz - 2;
             c1 = set_font \<lparr>fweight = weight, fsize = sz', ffamily = family\<rparr> c;
             r = measureWithTrackingForContext M c1 s letter
         in fit_loop M s maxWidth minSize family weight letter sz' (fst r) (snd r))
      else (\<lparr>fit_size = sz, fit_width = w\<rparr>, c))"
  by pat_completeness auto
termination
  by (relation "measure (\<lambda>(M, s, maxWidth, minSize, family, weight, letter, sz, w, c).
                  nat \<lceil>sz - minSize\<rceil>)") (auto, linarith)

declare fit_loop.simps [simp del]

text \<open>
  \<^verbatim>\<open>fitTextForContext(renderCtx, {text, maxWidth, maxSize, minSize=24, family,
  weight='900', letter=0})\<close>: an argument with a default is an option, \<open>None\<close> when the
  caller leaves it out.
\<close>

definition default_to :: "'a \<Rightarrow> 'a option \<Rightarrow> 'a" where
  "default_to d v = (case v of None \<Rightarrow> d | Some x \<Rightarrow> x)"

definition fitTextForContext ::
  "metrics \<Rightarrow> ctx2d \<Rightarrow> string \<Rightarrow> real \<Rightarrow> real \<Rightarrow> real option \<Rightarrow> string \<Rightarrow> string option
     \<Rightarrow> real option \<Rightarrow> fit_result \<times> ctx2d" where
  "fitTextForContext M renderCtx s maxWidth maxSize minSize_opt family weight_opt letter_opt =
     (let minSize = default_to 24 minSize_opt;
          weight = default_to ''900'' weight_opt;
          letter = default_to 0 letter_opt;
          sz = maxSize;
          c1 = set_font \<lparr>fweight = weight, fsize = sz, ffamily = family\<rparr> renderCtx;
          r = measureWithTrackingForContext M c1 s letter
      in fit_loop M s maxWidth minSize family weight letter sz (fst r) (snd r))"




section \<open>The size ladder in double arithmetic\<close>

text \<open>
  In the source the size is a double and \<^verbatim>\<open>size -= 2\<close> rounds: the difference is the
  double nearest to the exact difference, a tie going to the even significand. Far
  enough from zero the subtraction is absorbed (\<^verbatim>\<open>1e17 - 2\<close> is \<^verbatim>\<open>1e17\<close>) and the loop of
  the fit need not return. \<open>fit_loop\<close> above computes the ladder exactly and is total; the
  loop below computes it as the source does and is partial (\<open>None\<close>: it never returns).
  The two are compared in the section on the properties of this ladder
  (\<open>fit_loop_double_exact\<close>): they agree wherever every subtraction on the ladder is exact.
  The width and the comparisons stay exact in both.

  \<open>to_double\<close> rounds a real to 53 significant bits with an unbounded exponent. For the
  difference of a finite double and 2 that is the IEEE result: it is too small to
  overflow, and so close to 2 that it could underflow it is exact.
\<close>

definition round_half_even :: "real \<Rightarrow> int" where
  "round_half_even q =
     (let f = \<lfloor>q\<rfloor>; r = q - real_of_int f
      in if r < 1 / 2 then f else if 1 / 2 < r then f + 1 else if even f then f else f + 1)"

definition binade :: "real \<Rightarrow> int" where
  \<comment> \<open>For \<open>a > 0\<close>, the exponent \<open>e\<close> with \<open>2 ^ e \<le> a < 2 ^ (e + 1)\<close>.\<close>
  "binade a = (if 1 \<le> a then bitlen \<lfloor>a\<rfloor> - 1 else - bitlen (\<lceil>1 / a\<rceil> - 1))"

definition to_double :: "real \<Rightarrow> real" where
  "to_double x =
     (if x = 0 then 0
      else let u = 2 powi (binade \<bar>x\<bar> - 52) in u * real_of_int (round_half_even (x / u)))"

definition sub_double :: "real \<Rightarrow> real \<Rightarrow> real" where
  \<comment> \<open>\<^verbatim>\<open>a - b\<close> on doubles\<close>
  "sub_double a b = to_double (a - b)"

partial_function (option) fit_loop_double ::
  "metrics \<Rightarrow> string \<Rightarrow> real \<Rightarrow> real \<Rightarrow> string \<Rightarrow> string \<Rightarrow> real \<Rightarrow> real \<Rightarrow> real \<Rightarrow> ctx2d
     \<Rightarrow> (fit_result \<times> ctx2d) option" where
  "fit_loop_double M s maxWidth minSize family weight letter sz w c =
     (if w > maxWidth \<and> sz > minSize then
        fit_loop_double M s maxWidth minSize family weight letter (sub_double sz 2)
          (fst (measureWithTrackingForContext M
                  (set_font \<lparr>fweight = weight, fsize = sub_double sz 2, ffamily = family\<rparr> c)
                  s letter))
          (snd (measureWithTrackingForContext M
                  (set_font \<lparr>fweight = weight, fsize = sub_double sz 2, ffamily = family\<rparr> c)
                  s letter))
      else Some (\<lparr>fit_size = sz, fit_width = w\<rparr>, c))"

definition fitTextForContext_double ::
  "metrics \<Rightarrow> ctx2d \<Rightarrow> string \<Rightarrow> real \<Rightarrow> real \<Rightarrow> real option \<Rightarrow> string \<Rightarrow> string option
     \<Rightarrow> real option \<Rightarrow> (fit_result \<times> ctx2d) option" where
  "fitTextForContext_double M renderCtx s maxWidth maxSize minSize_opt family weight_opt letter_opt =
     (let minSize = default_to 24 minSize_opt;
          weight = default_to ''900'' weight_opt;
          letter = default_to 0 letter_opt;
          sz = maxSize;
          c1 = set_font \<lparr>fweight = weight, fsize = sz, ffamily = family\<rparr> renderCtx;
          r = measureWithTrackingForContext M c1 s letter
      in fit_loop_double M s maxWidth minSize family weight letter sz (fst r) (snd r))"

section \<open>Colour helper\<close>

datatype js_error = TypeError | DOMException string

definition is_hex_digit :: "char \<Rightarrow> bool" where
  \<comment> \<open>The class \<^verbatim>\<open>[0-9a-f]\<close> under the flag \<^verbatim>\<open>i\<close>.\<close>
  "is_hex_digit ch = (ch \<in> set ''0123456789abcdefABCDEF'')"

definition hex_value :: "char \<Rightarrow> nat" where
  "hex_value ch =
     (let n = of_char ch :: nat in
      if 48 \<le> n \<and> n \<le> 57 then n - 48
      else if 97 \<le> n \<and> n \<le> 102 then n - 87
      else n - 55)"

definition hex_char :: "nat \<Rightarrow> char" where
  "hex_char n = ''0123456789abcdef'' ! n"

definition parseInt16 :: "string \<Rightarrow> nat option" where
  \<comment> \<open>\<^verbatim>\<open>parseInt(s, 16)\<close> on a string without sign, blanks or \<^verbatim>\<open>x\<close>: the value of the
      longest prefix of hexadecimal digits, NaN (\<open>None\<close>) when that prefix is empty.\<close>
  "parseInt16 s =
     (case takeWhile is_hex_digit s of
        [] \<Rightarrow> None
      | ds \<Rightarrow> Some (foldl (\<lambda>a d. 16 * a + hex_value d) 0 ds))"

fun to_hex :: "nat \<Rightarrow> string" where
  "to_hex n = (if n < 16 then [hex_char n] else to_hex (n div 16) @ [hex_char (n mod 16)])"

declare to_hex.simps [simp del]

definition toString16 :: "int \<Rightarrow> string" where
  \<comment> \<open>\<^verbatim>\<open>c.toString(16)\<close> of an integer.\<close>
  "toString16 v = (if v < 0 then CHR ''-'' # to_hex (nat (- v)) else to_hex (nat v))"

definition slice_last2 :: "string \<Rightarrow> string" where
  \<comment> \<open>\<^verbatim>\<open>.slice(-2)\<close>\<close>
  "slice_last2 s = drop (length s - 2) s"

definition char_at :: "string \<Rightarrow> nat \<Rightarrow> string" where
  \<comment> \<open>\<^verbatim>\<open>hex[k]\<close> as an operand of a string concatenation: out of range it is
      \<^verbatim>\<open>undefined\<close>, which concatenates as the text "undefined".\<close>
  "char_at s k = (if k < length s then [s ! k] else ''undefined'')"

definition lum_channel :: "nat \<Rightarrow> real \<Rightarrow> int" where
  \<comment> \<open>\<^verbatim>\<open>Math.round(Math.min(Math.max(0, c + (c * lum)), 255))\<close>\<close>
  "lum_channel c lum = round_js (min (max 0 (real c + real c * lum)) 255)"

definition lum_hex :: "string \<Rightarrow> nat \<Rightarrow> real \<Rightarrow> string" where
  \<comment> \<open>One round of the loop. A NaN channel stays NaN, prints as "NaN" and leaves "aN".\<close>
  "lum_hex hex i lum =
     (case parseInt16 (take 2 (drop (i * 2) hex)) of
        None \<Rightarrow> slice_last2 (''00'' @ ''NaN'')
      | Some c \<Rightarrow> slice_last2 (''00'' @ toString16 (lum_channel c lum)))"

definition colorLuminance :: "string \<Rightarrow> real \<Rightarrow> js_error + string" where
  \<comment> \<open>With no hexadecimal digit at all, \<^verbatim>\<open>hex[0]+hex[0]\<close> adds \<^verbatim>\<open>undefined\<close> to
      \<^verbatim>\<open>undefined\<close>, the sum stays the number NaN, and \<^verbatim>\<open>hex.substr\<close> raises.\<close>
  "colorLuminance hex0 lum =
     (let hex1 = filter is_hex_digit hex0 in
      if hex1 = [] then Inl TypeError
      else
        let hex = (if length hex1 < 6
                   then char_at hex1 0 @ char_at hex1 0 @ char_at hex1 1 @ char_at hex1 1
                        @ char_at hex1 2 @ char_at hex1 2
                   else hex1)
        in Inr (''#'' @ lum_hex hex 0 lum @ lum_hex hex 1 lum @ lum_hex hex 2 lum))"

section \<open>Render state and field values\<close>

record state =
  img :: "image option"
  logo :: "image option"
  titleFont :: string
  bodyFont :: string
  nativeWidth :: int
  nativeHeight :: int
  scale :: real

definition is_space :: "char \<Rightarrow> bool" where
  \<comment> \<open>The white space \<^verbatim>\<open>trim()\<close> strips, as far as it is a single \<open>char\<close>: tab, line
      feed, vertical tab, form feed, carriage return, space, no-break space.\<close>
  "is_space ch = (of_char ch \<in> {9, 10, 11, 12, 13, 32, 160 :: nat})"

definition trim :: "string \<Rightarrow> string" where
  "trim s = rev (dropWhile is_space (rev (dropWhile is_space s)))"

definition or_default :: "string \<Rightarrow> string \<Rightarrow> string" where
  \<comment> \<open>\<^verbatim>\<open>a || b\<close> on strings: the empty string is falsy.\<close>
  "or_default a b = (if a = [] then b else a)"

text \<open>
  \<^verbatim>\<open>el(id).value\<close> is a function from the id of an input field to its text; the five
  fields are part of the page.
\<close>

type_synonym fields = "string \<Rightarrow> string"

section \<open>Layout compositor\<close>

text \<open>
  \<^verbatim>\<open>renderToContext(renderCtx, targetCanvas)\<close>, one definition for each of its commented
  sections. A section that moves the vertical cursor takes and returns the pair of the
  surface and \<^verbatim>\<open>y\<close>. Console output is not modelled.
\<close>

definition draw_background :: "state \<Rightarrow> string \<Rightarrow> real \<Rightarrow> real \<Rightarrow> ctx2d \<Rightarrow> ctx2d" where
  \<comment> \<open>BACKGROUND TINT, the image, the tint wash\<close>
  "draw_background st tint W H renderCtx =
     (let c1 = save renderCtx;
          c2 = set_fillStyle tint c1;
          c3 = fillRect 0 0 W H c2;
          c4 = (case img st of
                  Some im \<Rightarrow>
                    (let d1 = set_globalAlpha 0.8 c3;
                         d2 = set_globalCompositeOperation Multiply d1;
                         d3 = drawImage im 0 0 W H d2;
                         d4 = set_globalAlpha 1 d3
                     in set_globalCompositeOperation SourceOver d4)
                | None \<Rightarrow> c3);
          c5 = set_globalAlpha 0.3 c4;
          c6 = set_fillStyle tint c5;
          c7 = fillRect 0 0 W H c6
      in set_globalAlpha 1 c7)"

definition render_title1 ::
  "metrics \<Rightarrow> string \<Rightarrow> real \<Rightarrow> real \<Rightarrow> real \<Rightarrow> real \<Rightarrow> string \<Rightarrow> real
     \<Rightarrow> ctx2d \<times> real \<Rightarrow> ctx2d \<times> real" where
  \<comment> \<open>Title 1\<close>
  "render_title1 M title1 colX colW titleMax track titleFamily sc p =
     (let renderCtx = fst p; y = snd p in
      if title1 \<noteq> [] then
        (let r = fitTextForContext M renderCtx title1 colW titleMax None titleFamily
                   (Some ''900'') (Some track);
             f1 = fst r;
             c1 = set_font \<lparr>fweight = ''900'', fsize = fit_size f1, ffamily = titleFamily\<rparr> (snd r);
             c2 = set_textBaseline Top c1;
             c3 = drawTrackedTextForContext M c2 title1 colX y track
         in (c3, y + (fit_size f1 * 0.95 + 8 * sc)))
      else (renderCtx, y))"

definition render_title2 ::
  "metrics \<Rightarrow> string \<Rightarrow> real \<Rightarrow> real \<Rightarrow> real \<Rightarrow> real \<Rightarrow> string \<Rightarrow> real
     \<Rightarrow> ctx2d \<times> real \<Rightarrow> ctx2d \<times> real" where
  \<comment> \<open>Title 2 (extra large)\<close>
  "render_title2 M title2 colX colW titleMax track titleFamily sc p =
     (let renderCtx = fst p; y = snd p in
      if title2 \<noteq> [] then
        (let r = fitTextForContext M renderCtx title2 colW (real_of_int (round_js (titleMax * 3)))
                   (Some titleMax) titleFamily (Some ''900'') (Some track);
             f2 = fst r;
             c1 = set_font \<lparr>fweight = ''900'', fsize = fit_size f2, ffamily = titleFamily\<rparr> (snd r);
             c2 = set_textBaseline Top c1;
             c3 = drawTrackedTextForContext M c2 title2 colX y track
         in (c3, y + (fit_size f2 * 0.9 + 18 * sc)))
      else (renderCtx, y))"

definition render_subtitle ::
  "metrics \<Rightarrow> string \<Rightarrow> string \<Rightarrow> real \<Rightarrow> real \<Rightarrow> string \<Rightarrow> real
     \<Rightarrow> ctx2d \<times> real \<Rightarrow> js_error + ctx2d \<times> real" where
  \<comment> \<open>Subtitle\<close>
  "render_subtitle M sub ink colX colW bodyFamily sc p =
     (let renderCtx = fst p; y = snd p in
      if sub \<noteq> [] then
        (let nativeBaseSize = 120;
             nativeMinSize = 40;
             baseSize = nativeBaseSize * sc;
             minSize = nativeMinSize * sc;
             r = fitTextForContext M renderCtx sub colW baseSize (Some minSize) bodyFamily
                   (Some ''normal'') (Some 0);
             subFit = fst r;
             c1 = set_font \<lparr>fweight = ''normal'', fsize = fit_size subFit, ffamily = bodyFamily\<rparr>
                    (snd r)
         in case colorLuminance ink (- 0.06) of
              Inl e \<Rightarrow> Inl e
            | Inr dimmed \<Rightarrow>
                (let c2 = set_fillStyle dimmed c1;
                     c3 = set_textBaseline Alphabetic c2;
                     y1 = y + 48 * sc;
                     c4 = fillText sub colX y1 c3
                 in Inr (c4, y1 + (fit_size subFit + 32 * sc))))
      else Inr (renderCtx, y))"

definition render_author ::
  "metrics \<Rightarrow> string \<Rightarrow> string \<Rightarrow> real \<Rightarrow> real \<Rightarrow> real \<Rightarrow> string \<Rightarrow> real \<Rightarrow> ctx2d \<Rightarrow> ctx2d" where
  \<comment> \<open>Author (halfway down, right-justified)\<close>
  "render_author M author ink W H pad bodyFamily sc renderCtx =
     (if author \<noteq> [] then
        (let nativeAuthorSize = 175;
             authorSize = nativeAuthorSize * sc;
             c1 = set_font \<lparr>fweight = ''normal'', fsize = authorSize, ffamily = bodyFamily\<rparr>
                    renderCtx;
             c2 = set_fillStyle ink c1;
             c3 = set_textBaseline Alphabetic c2;
             ay = H / 2;
             m = measureText M c3 author;
             textWidth = fst m;
             ax = W - pad - textWidth
         in fillText author ax ay (snd m))
      else renderCtx)"

definition render_logo :: "state \<Rightarrow> real \<Rightarrow> real \<Rightarrow> real \<Rightarrow> ctx2d \<Rightarrow> ctx2d" where
  \<comment> \<open>Logo (bottom-right)\<close>
  "render_logo st W H sc renderCtx =
     (case logo st of
        Some lg \<Rightarrow>
          (let logoScale = 1.0;
               nativeMargin = 75;
               margin = nativeMargin * sc;
               lw = real_of_int (iwidth lg) * logoScale * sc;
               lh = real_of_int (iheight lg) * logoScale * sc;
               lx = W - margin - lw;
               ly = H - margin - lh
           in drawImage lg lx ly lw lh renderCtx)
      | None \<Rightarrow> renderCtx)"

definition renderToContext ::
  "metrics \<Rightarrow> fields \<Rightarrow> state \<Rightarrow> ctx2d \<Rightarrow> canvas_dims \<Rightarrow> js_error + ctx2d" where
  "renderToContext M el_value st renderCtx targetCanvas =
     (let nativeW = nativeWidth st;
          nativeH = nativeHeight st;
          sc = scale st;
          W = cwidth targetCanvas;
          H = cheight targetCanvas
      in
      if W \<le> 0 \<or> H \<le> 0 \<or> nativeW \<le> 0 \<or> nativeH \<le> 0 \<or> sc \<le> 0 then Inr renderCtx
      else
        (let tint = el_value ''tint'';
             ink = ''#ffffff'';
             c1 = draw_background st tint (real_of_int W) (real_of_int H) renderCtx;
             nativePad = round_js (real_of_int nativeW * 0.08);
             pad = real_of_int nativePad * sc;
             colX = pad;
             colW = real_of_int (nativeW - nativePad * 2) * sc;
             title1 = trim (el_value ''title1'');
             title2 = trim (el_value ''title2'');
             nativeTitleMax = 260;
             titleMax = nativeTitleMax * sc;
             track = - 2 * sc;
             titleFamily = or_default (titleFont st) ''TrueNo-Black'';
             bodyFamily = or_default (bodyFont st) ''TrueNo-Book'';
             y = pad + 20 * sc;
             c2 = set_fillStyle ink c1;
             p1 = render_title1 M title1 colX colW titleMax track titleFamily sc (c2, y);
             p2 = render_title2 M title2 colX colW titleMax track titleFamily sc p1;
             sub = trim (el_value ''subtitle'')
         in case render_subtitle M sub ink colX colW bodyFamily sc p2 of
              Inl e \<Rightarrow> Inl e
            | Inr p3 \<Rightarrow>
                (let author = trim (el_value ''author'');
                     c4 = render_author M author ink (real_of_int W) (real_of_int H) pad
                            bodyFamily sc (fst p3);
                     c5 = render_logo st (real_of_int W) (real_of_int H) sc c4
                 in Inr (restore c5))))"

section \<open>Export at native resolution\<close>

definition fresh_ctx :: ctx2d where
  \<comment> \<open>The 2D context of a canvas just created.\<close>
  "fresh_ctx =
     \<lparr>cur = \<lparr>font = \<lparr>fweight = ''normal'', fsize = 10, ffamily = ''sans-serif''\<rparr>,
             fillStyle = ''#000000'', textBaseline = Alphabetic, globalAlpha = 1,
             globalCompositeOperation = SourceOver\<rparr>,
      stack = [], calls = []\<rparr>"

text \<open>
  \<^verbatim>\<open>exportAtNativeResolution()\<close>. The browser's \<^verbatim>\<open>toDataURL\<close> is a parameter: from the
  canvas and what was drawn on it, a data URL or an exception. The result is what the
  function returns (\<open>None\<close> is \<^verbatim>\<open>null\<close>) or raises, and the state it leaves behind. The
  \<^verbatim>\<open>finally\<close> block runs on each way out of the \<^verbatim>\<open>try\<close> block.
\<close>

definition exportAtNativeResolution ::
  "metrics \<Rightarrow> fields \<Rightarrow> (canvas_dims \<Rightarrow> ctx2d \<Rightarrow> js_error + string) \<Rightarrow> state
     \<Rightarrow> (js_error + string option) \<times> state" where
  "exportAtNativeResolution M el_value toDataURL st =
     (if nativeWidth st = 0 \<or> nativeHeight st = 0 then (Inr None, st)
      else
        (let exportCanvas = \<lparr>cwidth = nativeWidth st, cheight = nativeHeight st\<rparr>;
             exportCtx = fresh_ctx;
             originalScale = scale st;
             st1 = st\<lparr>scale := 1\<rparr>;
             r = (case renderToContext M el_value st1 exportCtx exportCanvas of
                    Inl e \<Rightarrow> Inl e
                  | Inr drawn \<Rightarrow>
                      (case toDataURL exportCanvas drawn of
                         Inl e \<Rightarrow> Inl e
                       | Inr url \<Rightarrow> Inr (Some url)));
             st2 = st1\<lparr>scale := originalScale\<rparr>
         in (r, st2)))"

text \<open>\<^verbatim>\<open>render()\<close> draws on the live canvas.\<close>

definition render ::
  "metrics \<Rightarrow> fields \<Rightarrow> state \<Rightarrow> ctx2d \<Rightarrow> canvas_dims \<Rightarrow> js_error + ctx2d" where
  "render M el_value st ctx canvas = renderToContext M el_value st ctx canvas"

section \<open>Example inputs\<close>

definition mono_metrics :: metrics where
  \<comment> \<open>A monospaced face: each character advances by 0.6 of the font size.\<close>
  "mono_metrics f s = fsize f * 0.6 * real (length s)"

definition demo_fields :: "string \<Rightarrow> string \<Rightarrow> string \<Rightarrow> string \<Rightarrow> string \<Rightarrow> fields" where
  "demo_fields tint title1 title2 subtitle author ident =
     (if ident = ''tint'' then tint
      else if ident = ''title1'' then title1
      else if ident = ''title2'' then title2
      else if ident = ''subtitle'' then subtitle
      else if ident = ''author'' then author
      else [])"

definition demo_canvas :: canvas_dims where
  "demo_canvas = \<lparr>cwidth = 1600, cheight = 2560\<rparr>"

definition demo_state :: "real \<Rightarrow> state" where
  \<comment> \<open>The fallback native resolution, no image and no logo.\<close>
  "demo_state sc =
     \<lparr>img = None, logo = None, titleFont = ''TrueNo-Black'', bodyFont = ''TrueNo-Regular'',
      nativeWidth = 1600, nativeHeight = 2560, scale = sc\<rparr>"

section \<open>The colour helper as the specification words it\<close>







section \<open>The compose pass as the specification words it\<close>

text \<open>
  Written from the specification, to be compared with the log of \<open>renderToContext\<close>.
  Tracked drawing: each character drawn on its own at the cursor, which then moves on by
  that character's measured width plus the tracking.
\<close>

fun spec_tracked_calls :: "metrics \<Rightarrow> dstate \<Rightarrow> string \<Rightarrow> real \<Rightarrow> real \<Rightarrow> real \<Rightarrow> call list" where
  "spec_tracked_calls M d [] x y letter = []"
| "spec_tracked_calls M d (ch # rest) x y letter =
     FillText d [ch] x y # MeasureText (font d) [ch]
       # spec_tracked_calls M d rest (x + (M (font d) [ch] + letter)) y letter"

text \<open>
  The nine steps of a compose pass, as the calls they make on a surface whose drawing
  state is \<open>d0\<close>. The sizes \<open>s1\<close>, \<open>s2\<close>, \<open>s3\<close> that the fit resolves for the two title
  lines and the subtitle, the measurements \<open>ms1\<close>, \<open>ms2\<close>, \<open>ms3\<close> that the fit makes for
  them, and the drawing state \<open>dL\<close> the logo is drawn in are arguments. Text is drawn
  opaque, in the blend mode \<open>g\<close> the background leaves behind.
\<close>

definition spec_compose_calls ::
  "metrics \<Rightarrow> fields \<Rightarrow> state \<Rightarrow> canvas_dims \<Rightarrow> dstate \<Rightarrow> real \<Rightarrow> real \<Rightarrow> real
     \<Rightarrow> call list \<Rightarrow> call list \<Rightarrow> call list \<Rightarrow> dstate \<Rightarrow> call list" where
  "spec_compose_calls M el_value st tc d0 s1 s2 s3 ms1 ms2 ms3 dL =
     (let sc = scale st;
          W = real_of_int (cwidth tc);
          H = real_of_int (cheight tc);
          tint = el_value ''tint'';
          pad = real_of_int (round_js (real_of_int (nativeWidth st) * 0.08)) * sc;
          tf = or_default (titleFont st) ''TrueNo-Black'';
          bf = or_default (bodyFont st) ''TrueNo-Book'';
          title1 = trim (el_value ''title1'');
          title2 = trim (el_value ''title2'');
          sub = trim (el_value ''subtitle'');
          author = trim (el_value ''author'');
          g = (case img st of None \<Rightarrow> globalCompositeOperation d0 | Some im \<Rightarrow> SourceOver);
          y0 = pad + 20 * sc;
          y1 = (if title1 = [] then y0 else y0 + (s1 * 0.95 + 8 * sc));
          y2 = (if title2 = [] then y1 else y1 + (s2 * 0.9 + 18 * sc));
          af = \<lparr>fweight = ''normal'', fsize = 175 * sc, ffamily = bf\<rparr>
      in [Save, FillRect (d0\<lparr>fillStyle := tint\<rparr>) 0 0 W H]
       @ (case img st of
            None \<Rightarrow> []
          | Some im \<Rightarrow>
              [DrawImage (d0\<lparr>fillStyle := tint, globalAlpha := 0.8,
                            globalCompositeOperation := Multiply\<rparr>) im 0 0 W H])
       @ [FillRect (d0\<lparr>fillStyle := tint, globalAlpha := 0.3, globalCompositeOperation := g\<rparr>)
            0 0 W H]
       @ (if title1 = [] then []
          else ms1 @ spec_tracked_calls M
                 \<lparr>font = \<lparr>fweight = ''900'', fsize = s1, ffamily = tf\<rparr>, fillStyle = ''#ffffff'',
                    textBaseline = Top, globalAlpha = 1, globalCompositeOperation = g\<rparr>
                 title1 pad y0 (- 2 * sc))
       @ (if title2 = [] then []
          else ms2 @ spec_tracked_calls M
                 \<lparr>font = \<lparr>fweight = ''900'', fsize = s2, ffamily = tf\<rparr>, fillStyle = ''#ffffff'',
                    textBaseline = Top, globalAlpha = 1, globalCompositeOperation = g\<rparr>
                 title2 pad y1 (- 2 * sc))
       @ (if sub = [] then []
          else ms3 @ [FillText
                 \<lparr>font = \<lparr>fweight = ''normal'', fsize = s3, ffamily = bf\<rparr>, fillStyle = ''#f0f0f0'',
                    textBaseline = Alphabetic, globalAlpha = 1, globalCompositeOperation = g\<rparr>
                 sub pad (y2 + 48 * sc)])
       @ (if author = [] then []
          else [MeasureText af author,
                FillText
                 \<lparr>font = af, fillStyle = ''#ffffff'', textBaseline = Alphabetic, globalAlpha = 1,
                    globalCompositeOperation = g\<rparr>
                 author (W - pad - M af author) (H / 2)])
       @ (case logo st of
            None \<Rightarrow> []
          | Some lg \<Rightarrow>
              [DrawImage dL lg
                 (W - 75 * sc - real_of_int (iwidth lg) * sc)
                 (H - 75 * sc - real_of_int (iheight lg) * sc)
                 (real_of_int (iwidth lg) * sc) (real_of_int (iheight lg) * sc)])
       @ [Restore])"

definition demo_state_full :: "real \<Rightarrow> state" where
  \<comment> \<open>With a background image and a logo.\<close>
  "demo_state_full sc =
     \<lparr>img = Some \<lparr>iwidth = 1600, iheight = 2560\<rparr>, logo = Some \<lparr>iwidth = 300, iheight = 120\<rparr>,
      titleFont = ''TrueNo-Black'', bodyFont = ''TrueNo-Regular'',
      nativeWidth = 1600, nativeHeight = 2560, scale = sc\<rparr>"

fun is_text :: "call \<Rightarrow> bool" where
  "is_text (FillText d s x y) = True"
| "is_text k = False"

section \<open>Properties of the tracking engine\<close>

lemma measureWithTracking_eq:
  "measureWithTracking M c s letter = measureWithTrackingForContext M c s letter"
  by (simp add: measureWithTracking_def measureWithTrackingForContext_def)

lemma tracked_width:
  "fst (measureWithTrackingForContext M c s letter) =
     fst (measureText M c s) + letter * real_of_int (max 0 (int (length s) - 1))"
  by (simp add: measureWithTrackingForContext_def Let_def split: prod.splits)

lemma tracked_surface:
  "snd (measureWithTrackingForContext M c s letter) = snd (measureText M c s)"
  by (simp add: measureWithTrackingForContext_def Let_def split: prod.splits)

text \<open>
  C3. Without tracking (\<open>letter = 0\<close>) the tracked width is the plain measured width of
  the whole string; in every case it is that width plus \<open>letter\<close> times
  \<open>max 0 (length - 1)\<close>: one measurement of the whole string and a uniform correction for
  each gap, no sum over the glyphs. Both copies of the function, the one on a given
  surface and the one on the global surface, compute this.
\<close>

theorem measureTracked_formula:
  "fst (measureWithTrackingForContext M c s 0) = fst (measureText M c s)
   \<and> fst (measureWithTrackingForContext M c s letter) =
       fst (measureText M c s) + letter * real_of_int (max 0 (int (length s) - 1))
   \<and> fst (measureWithTracking M c s 0) = fst (measureText M c s)
   \<and> fst (measureWithTracking M c s letter) =
       fst (measureText M c s) + letter * real_of_int (max 0 (int (length s) - 1))"
  by (simp add: measureWithTracking_eq tracked_width)

text \<open>
  C8. For a fixed text of length at least 1 on a fixed surface, the tracked width is
  monotonically non-decreasing in the tracking value, 0 included.
\<close>

theorem measureTracked_mono:
  assumes "1 \<le> length s" and "letter1 \<le> letter2"
  shows "fst (measureWithTrackingForContext M c s letter1)
           \<le> fst (measureWithTrackingForContext M c s letter2)"
proof -
  have "0 \<le> real_of_int (max 0 (int (length s) - 1))" by simp
  with assms(2) have "letter1 * real_of_int (max 0 (int (length s) - 1))
                        \<le> letter2 * real_of_int (max 0 (int (length s) - 1))"
    by (rule mult_right_mono)
  then show ?thesis by (simp only: tracked_width add_left_mono)
qed

theorem measureTracked_mono_witness:
  "1 \<le> length ''Perl'' \<and> (- 2 :: real) \<le> 0
   \<and> fst (measureWithTrackingForContext mono_metrics fresh_ctx ''Perl'' (- 2))
        \<le> fst (measureWithTrackingForContext mono_metrics fresh_ctx ''Perl'' 0)"
  using measureTracked_mono [of "''Perl''" "- 2" 0 mono_metrics fresh_ctx] by simp

section \<open>Properties of the fit solver\<close>

lemma measure_calls_emit:
  "measure_calls (emit k c) = measure_calls c + (if is_measure k then 1 else 0)"
  by (simp add: measure_calls_def emit_def)

lemma measure_calls_set_font [simp]: "measure_calls (set_font f c) = measure_calls c"
  by (simp add: measure_calls_def set_font_def)

lemma measure_calls_tracked [simp]:
  "measure_calls (snd (measureWithTrackingForContext M c s letter)) = Suc (measure_calls c)"
  by (simp add: measureWithTrackingForContext_def measureText_def measure_calls_emit Let_def)

lemma half_step: "m < (sz::real) \<Longrightarrow> Suc (nat \<lceil>(sz - 2 - m) / 2\<rceil>) = nat \<lceil>(sz - m) / 2\<rceil>"
proof -
  assume a: "m < sz"
  have "(sz - 2 - m) / 2 = (sz - m) / 2 - 1" by (simp add: field_simps)
  then have e: "\<lceil>(sz - 2 - m) / 2\<rceil> = \<lceil>(sz - m) / 2\<rceil> - 1" by (simp only: ceiling_diff_one)
  from a have "0 < (sz - m) / 2" by simp
  then have "0 < \<lceil>(sz - m) / 2\<rceil>" by linarith
  then have "Suc (nat (\<lceil>(sz - m) / 2\<rceil> - 1)) = nat \<lceil>(sz - m) / 2\<rceil>" by arith
  with e show ?thesis by (simp only:)
qed

lemma fit_loop_done:
  "\<not> (w > maxWidth \<and> sz > minSize) \<Longrightarrow>
   fit_loop M s maxWidth minSize family weight letter sz w c = (\<lparr>fit_size = sz, fit_width = w\<rparr>, c)"
  by (subst fit_loop.simps) auto

lemma fit_loop_step:
  "w > maxWidth \<and> sz > minSize \<Longrightarrow>
   fit_loop M s maxWidth minSize family weight letter sz w c =
     fit_loop M s maxWidth minSize family weight letter (sz - 2)
       (fst (measureWithTrackingForContext M
               (set_font \<lparr>fweight = weight, fsize = sz - 2, ffamily = family\<rparr> c) s letter))
       (snd (measureWithTrackingForContext M
               (set_font \<lparr>fweight = weight, fsize = sz - 2, ffamily = family\<rparr> c) s letter))"
  by (subst fit_loop.simps) (simp add: Let_def)

lemma fit_loop_calls:
  "measure_calls (snd (fit_loop M s maxWidth minSize family weight letter sz w c))
     \<le> measure_calls c + nat \<lceil>(sz - minSize) / 2\<rceil>"
proof (induction M s maxWidth minSize family weight letter sz w c rule: fit_loop.induct)
  case (1 M s maxWidth minSize family weight letter sz w c)
  show ?case
  proof (cases "w > maxWidth \<and> sz > minSize")
    case True
    from "1" [OF True refl refl refl] True show ?thesis
      using half_step [of minSize sz]
      by (simp add: fit_loop_step)
  next
    case False
    then show ?thesis by (simp add: fit_loop_done)
  qed
qed


lemma fit_loop_stop:
  "fit_width (fst (fit_loop M s maxWidth minSize family weight letter sz w c)) \<le> maxWidth
   \<or> fit_size (fst (fit_loop M s maxWidth minSize family weight letter sz w c)) \<le> minSize"
proof (induction M s maxWidth minSize family weight letter sz w c rule: fit_loop.induct)
  case (1 M s maxWidth minSize family weight letter sz w c)
  show ?case
  proof (cases "w > maxWidth \<and> sz > minSize")
    case True
    from "1" [OF True refl refl refl] True show ?thesis
      by (simp add: fit_loop_step)
  next
    case False
    then show ?thesis by (auto simp add: fit_loop_done)
  qed
qed






lemma fit_loop_count:
  "\<exists>k. fit_size (fst (fit_loop M s maxWidth minSize family weight letter sz w c)) = sz - 2 * real k
       \<and> measure_calls (snd (fit_loop M s maxWidth minSize family weight letter sz w c))
           = measure_calls c + k
       \<and> k \<le> nat \<lceil>(sz - minSize) / 2\<rceil>"
proof (induction M s maxWidth minSize family weight letter sz w c rule: fit_loop.induct)
  case (1 M s maxWidth minSize family weight letter sz w c)
  show ?case
  proof (cases "w > maxWidth \<and> sz > minSize")
    case True
    from "1" [OF True refl refl refl] obtain k where
      k: "fit_size (fst (fit_loop M s maxWidth minSize family weight letter sz w c)) = sz - 2 - 2 * real k"
         "measure_calls (snd (fit_loop M s maxWidth minSize family weight letter sz w c))
            = Suc (measure_calls c) + k"
         "k \<le> nat \<lceil>(sz - 2 - minSize) / 2\<rceil>"
      using True by (auto simp: fit_loop_step)
    from True have "Suc (nat \<lceil>(sz - 2 - minSize) / 2\<rceil>) = nat \<lceil>(sz - minSize) / 2\<rceil>"
      by (simp add: half_step)
    with k(3) have "Suc k \<le> nat \<lceil>(sz - minSize) / 2\<rceil>" by linarith
    with k(1,2) show ?thesis
      by (intro exI [of _ "Suc k"]) simp
  next
    case False
    then show ?thesis by (intro exI [of _ 0]) (simp add: fit_loop_done)
  qed
qed

text \<open>
  The exact ladder: after some number \<open>k\<close> of rounds the size is \<open>maxSize - 2 * k\<close>, with
  one measurement before the loop and one in each round, and \<open>k\<close> is at most
  \<open>(maxSize - minSize) / 2\<close> rounded up (0 when that is negative).
\<close>

lemma fit_exact_rounds:
  "\<exists>k. fit_size (fst (fitTextForContext M c s maxWidth maxSize minSize_opt family weight_opt letter_opt))
          = maxSize - 2 * real k
       \<and> measure_calls (snd (fitTextForContext M c s maxWidth maxSize minSize_opt family weight_opt letter_opt))
          = measure_calls c + 1 + k
       \<and> k \<le> nat \<lceil>(maxSize - default_to 24 minSize_opt) / 2\<rceil>
       \<and> (fit_width (fst (fitTextForContext M c s maxWidth maxSize minSize_opt family weight_opt letter_opt))
            \<le> maxWidth
          \<or> fit_size (fst (fitTextForContext M c s maxWidth maxSize minSize_opt family weight_opt letter_opt))
            \<le> default_to 24 minSize_opt)"
proof -
  define c1 where "c1 = set_font \<lparr>fweight = default_to ''900'' weight_opt, fsize = maxSize,
                                  ffamily = family\<rparr> c"
  define r where "r = measureWithTrackingForContext M c1 s (default_to 0 letter_opt)"
  define res where "res = fit_loop M s maxWidth (default_to 24 minSize_opt) family
                            (default_to ''900'' weight_opt) (default_to 0 letter_opt) maxSize (fst r) (snd r)"
  have e: "fitTextForContext M c s maxWidth maxSize minSize_opt family weight_opt letter_opt = res"
    by (simp add: fitTextForContext_def Let_def res_def r_def c1_def)
  have m: "measure_calls (snd r) = measure_calls c + 1"
    by (simp add: r_def c1_def)
  from fit_loop_count [of M s maxWidth "default_to 24 minSize_opt" family
         "default_to ''900'' weight_opt" "default_to 0 letter_opt" maxSize "fst r" "snd r"]
  obtain k where k: "fit_size (fst res) = maxSize - 2 * real k"
      "measure_calls (snd res) = measure_calls (snd r) + k"
      "k \<le> nat \<lceil>(maxSize - default_to 24 minSize_opt) / 2\<rceil>"
    unfolding res_def by blast
  have st: "fit_width (fst res) \<le> maxWidth \<or> fit_size (fst res) \<le> default_to 24 minSize_opt"
    unfolding res_def by (rule fit_loop_stop)
  from k m st show ?thesis
    unfolding e by (intro exI [of _ k]) simp
qed


text \<open>At the floor the returned width may exceed \<open>maxWidth\<close>: here it is 158.4 against 10.\<close>

lemma fit_overflow_at_floor_example:
  "fst (fitTextForContext mono_metrics fresh_ctx ''Programming'' 10 30 (Some 24) ''TrueNo-Black'' None None)
     = \<lparr>fit_size = 24, fit_width = 792 / 5\<rparr>"
  by code_simp




text \<open>
  Title line 1 on a canvas a quarter of the native width: the fit starts at 65 with the
  default floor 24, and a title too wide for the column ends at 23.
\<close>

lemma fit_title1_quarter_example:
  "fit_size (fst (fitTextForContext mono_metrics fresh_ctx ''Programming'' 10 65 None
                    ''TrueNo-Black'' (Some ''900'') (Some (- 1 / 2)))) = 23"
  by code_simp

section \<open>Properties of the size ladder in double arithmetic\<close>

lemma round_half_even_err: "\<bar>real_of_int (round_half_even q) - q\<bar> \<le> 1 / 2"
  unfolding round_half_even_def Let_def by (auto simp: abs_le_iff; linarith)

lemma round_half_even_int [simp]: "round_half_even (real_of_int m) = m"
  by (simp add: round_half_even_def)

lemma binade_le: "0 < a \<Longrightarrow> a < 2 ^ 53 \<Longrightarrow> binade a \<le> 52"
proof -
  assume a: "0 < a" "a < 2 ^ 53"
  show ?thesis
  proof (cases "1 \<le> a")
    case True
    from a(2) have "\<lfloor>a\<rfloor> < 2 ^ 53" by (simp add: floor_less_iff)
    then have "bitlen \<lfloor>a\<rfloor> \<le> 53" by (simp add: bitlen_le_iff_power)
    with True show ?thesis by (simp add: binade_def)
  next
    case False
    have "0 \<le> bitlen (\<lceil>1 / a\<rceil> - 1)" by (rule bitlen_nonneg)
    with False show ?thesis by (simp add: binade_def)
  qed
qed

lemma ulp_le_one: "k \<le> 0 \<Longrightarrow> (2::real) powi k \<le> 1"
  using power_int_increasing [of k 0 "2::real"] by simp

lemma to_double_err: assumes "\<bar>x\<bar> < 2 ^ 53" shows "\<bar>to_double x - x\<bar> \<le> 1 / 2"
proof (cases "x = 0")
  case True
  then show ?thesis by (simp add: to_double_def)
next
  case False
  define u :: real where "u = 2 powi (binade \<bar>x\<bar> - 52)"
  from False assms have "binade \<bar>x\<bar> \<le> 52" by (intro binade_le) auto
  then have u: "0 < u" "u \<le> 1"
    unfolding u_def by (simp_all add: ulp_le_one)
  have "to_double x - x = u * (real_of_int (round_half_even (x / u)) - x / u)"
    using False u by (simp add: to_double_def u_def [symmetric] Let_def field_simps)
  then have "\<bar>to_double x - x\<bar> = u * \<bar>real_of_int (round_half_even (x / u)) - x / u\<bar>"
    using u by (simp add: abs_mult)
  also have "\<dots> \<le> 1 * (1 / 2)"
    using u round_half_even_err [of "x / u"] by (intro mult_mono) auto
  finally show ?thesis by simp
qed

lemma to_double_int: assumes "\<bar>n\<bar> < 2 ^ 53" shows "to_double (real_of_int n) = real_of_int n"
proof (cases "n = 0")
  case True
  then show ?thesis by (simp add: to_double_def)
next
  case False
  define k where "k = nat (52 - binade \<bar>real_of_int n\<bar>)"
  from False assms have "binade \<bar>real_of_int n\<bar> \<le> 52"
    by (intro binade_le) (auto simp flip: of_int_abs)
  then have e: "binade \<bar>real_of_int n\<bar> - 52 = - int k" by (simp add: k_def)
  have u: "(2::real) powi (binade \<bar>real_of_int n\<bar> - 52) = 1 / 2 ^ k"
    unfolding e by (simp add: power_int_minus_divide)
  have q: "real_of_int n / (1 / 2 ^ k) = real_of_int (n * 2 ^ k)" by simp
  have "to_double (real_of_int n) = (1 / 2 ^ k) * real_of_int (round_half_even (real_of_int (n * 2 ^ k)))"
    using False unfolding to_double_def u Let_def q by simp
  also have "\<dots> = (1 / 2 ^ k) * real_of_int (n * 2 ^ k)"
    by (simp only: round_half_even_int)
  also have "\<dots> = real_of_int n" by simp
  finally show ?thesis .
qed

lemma sub_double_step:
  assumes "\<bar>sz - 2\<bar> < 2 ^ 53"
  shows "sub_double sz 2 \<le> sz - 3 / 2" "sz - 5 / 2 \<le> sub_double sz 2"
  using to_double_err [OF assms] unfolding sub_double_def by linarith+


lemma fit_loop_double_done:
  "\<not> (w > maxWidth \<and> sz > minSize) \<Longrightarrow>
   fit_loop_double M s maxWidth minSize family weight letter sz w c
     = Some (\<lparr>fit_size = sz, fit_width = w\<rparr>, c)"
  by (subst fit_loop_double.simps) auto

lemma fit_loop_double_step:
  "w > maxWidth \<and> sz > minSize \<Longrightarrow>
   fit_loop_double M s maxWidth minSize family weight letter sz w c =
     fit_loop_double M s maxWidth minSize family weight letter (sub_double sz 2)
       (fst (measureWithTrackingForContext M
               (set_font \<lparr>fweight = weight, fsize = sub_double sz 2, ffamily = family\<rparr> c) s letter))
       (snd (measureWithTrackingForContext M
               (set_font \<lparr>fweight = weight, fsize = sub_double sz 2, ffamily = family\<rparr> c) s letter))"
  by (subst fit_loop_double.simps) simp

lemma fit_loop_double_returns:
  assumes "- (2 ^ 52) \<le> minSize" "sz \<le> 2 ^ 52"
  shows "\<exists>r c' k. fit_loop_double M s maxWidth minSize family weight letter sz w c = Some (r, c')
           \<and> measure_calls c' = measure_calls c + k \<and> k \<le> nat \<lceil>sz - minSize\<rceil>
           \<and> fit_size r \<le> sz \<and> (fit_width r \<le> maxWidth \<or> fit_size r \<le> minSize)"
  using assms(2)
proof (induction "nat \<lceil>sz - minSize\<rceil>" arbitrary: sz w c rule: less_induct)
  case less
  show ?case
  proof (cases "w > maxWidth \<and> sz > minSize")
    case False
    then show ?thesis
      by (intro exI [of _ "\<lparr>fit_size = sz, fit_width = w\<rparr>"] exI [of _ c] exI [of _ 0])
        (auto simp: fit_loop_double_done)
  next
    case True
    define sz' where "sz' = sub_double sz 2"
    define r1 where "r1 = measureWithTrackingForContext M
               (set_font \<lparr>fweight = weight, fsize = sz', ffamily = family\<rparr> c) s letter"
    from True assms(1) less.prems have "\<bar>sz - 2\<bar> < 2 ^ 53" by (simp add: abs_less_iff)
    then have st: "sz' \<le> sz - 3 / 2" unfolding sz'_def by (rule sub_double_step)
    from True have "0 < \<lceil>sz - minSize\<rceil>" by linarith
    moreover from st have "\<lceil>sz' - minSize\<rceil> \<le> \<lceil>sz - minSize\<rceil> - 1" by linarith
    ultimately have m: "Suc (nat \<lceil>sz' - minSize\<rceil>) \<le> nat \<lceil>sz - minSize\<rceil>" by linarith
    then have lt: "nat \<lceil>sz' - minSize\<rceil> < nat \<lceil>sz - minSize\<rceil>" by linarith
    from st less.prems have le: "sz' \<le> 2 ^ 52" by simp
    from less.hyps [OF lt le, of "fst r1" "snd r1"]
    obtain r c' k where k:
      "fit_loop_double M s maxWidth minSize family weight letter sz' (fst r1) (snd r1) = Some (r, c')"
      "measure_calls c' = measure_calls (snd r1) + k" "k \<le> nat \<lceil>sz' - minSize\<rceil>"
      "fit_size r \<le> sz'" "fit_width r \<le> maxWidth \<or> fit_size r \<le> minSize"
      by blast
    have e: "fit_loop_double M s maxWidth minSize family weight letter sz w c = Some (r, c')"
      using True k(1) by (simp add: fit_loop_double_step sz'_def r1_def)
    have mc: "measure_calls c' = measure_calls c + Suc k"
      using k(2) by (simp add: r1_def)
    from k(3) m have kb: "Suc k \<le> nat \<lceil>sz - minSize\<rceil>" by simp
    from k(4) st have sb: "fit_size r \<le> sz" by simp
    from e mc kb sb k(5) show ?thesis
      by (intro exI [of _ r] exI [of _ c'] exI [of _ "Suc k"]) (simp only: simp_thms)
  qed
qed

lemma fit_loop_double_stuck:
  assumes a: "sub_double sz 2 = sz" "minSize < sz"
    "maxWidth < M \<lparr>fweight = weight, fsize = sz, ffamily = family\<rparr> s
                  + letter * real_of_int (max 0 (int (length s) - 1))"
  shows "fit_loop_double M s maxWidth minSize family weight letter sz
           (M \<lparr>fweight = weight, fsize = sz, ffamily = family\<rparr> s
              + letter * real_of_int (max 0 (int (length s) - 1))) c = None"
proof (rule ccontr)
  define w0 where "w0 = M \<lparr>fweight = weight, fsize = sz, ffamily = family\<rparr> s
                          + letter * real_of_int (max 0 (int (length s) - 1))"
  assume "fit_loop_double M s maxWidth minSize family weight letter sz
           (M \<lparr>fweight = weight, fsize = sz, ffamily = family\<rparr> s
              + letter * real_of_int (max 0 (int (length s) - 1))) c \<noteq> None"
  then obtain y where y: "fit_loop_double M s maxWidth minSize family weight letter sz w0 c = Some y"
    unfolding w0_def by auto
  have w: "fst (measureWithTrackingForContext M
                  (set_font \<lparr>fweight = weight, fsize = sz, ffamily = family\<rparr> c') s letter) = w0" for c'
    by (simp add: tracked_width measureText_def set_font_def w0_def)
  have gen: "\<not> (M' = M \<and> s' = s \<and> maxWidth' = maxWidth \<and> minSize' = minSize \<and> family' = family
                  \<and> weight' = weight \<and> letter' = letter \<and> sz' = sz \<and> w' = w0)"
    if "fit_loop_double M' s' maxWidth' minSize' family' weight' letter' sz' w' c' = Some y'"
    for M' s' maxWidth' minSize' family' weight' letter' sz' w' c' y'
  proof (rule fit_loop_double.raw_induct [where P = "\<lambda>M' s' maxWidth' minSize' family' weight' letter' sz' w' c' y'.
        \<not> (M' = M \<and> s' = s \<and> maxWidth' = maxWidth \<and> minSize' = minSize \<and> family' = family
                  \<and> weight' = weight \<and> letter' = letter \<and> sz' = sz \<and> w' = w0)", OF _ that])
    fix f M' s' maxWidth' minSize' family' weight' letter' sz' w' c' y'
    assume IH: "\<And>M' s' maxWidth' minSize' family' weight' letter' sz' w' c' y'.
        f M' s' maxWidth' minSize' family' weight' letter' sz' w' c' = Some y' \<Longrightarrow>
        \<not> (M' = M \<and> s' = s \<and> maxWidth' = maxWidth \<and> minSize' = minSize \<and> family' = family
                  \<and> weight' = weight \<and> letter' = letter \<and> sz' = sz \<and> w' = w0)"
      and body: "(if maxWidth' < w' \<and> minSize' < sz'
          then f M' s' maxWidth' minSize' family' weight' letter' (sub_double sz' 2)
            (fst (measureWithTrackingForContext M'
                   (set_font \<lparr>fweight = weight', fsize = sub_double sz' 2, ffamily = family'\<rparr> c')
                   s' letter'))
            (snd (measureWithTrackingForContext M'
                   (set_font \<lparr>fweight = weight', fsize = sub_double sz' 2, ffamily = family'\<rparr> c')
                   s' letter'))
          else Some (\<lparr>fit_size = sz', fit_width = w'\<rparr>, c')) = Some y'"
    show "\<not> (M' = M \<and> s' = s \<and> maxWidth' = maxWidth \<and> minSize' = minSize \<and> family' = family
                  \<and> weight' = weight \<and> letter' = letter \<and> sz' = sz \<and> w' = w0)"
    proof
      assume eq: "M' = M \<and> s' = s \<and> maxWidth' = maxWidth \<and> minSize' = minSize \<and> family' = family
                  \<and> weight' = weight \<and> letter' = letter \<and> sz' = sz \<and> w' = w0"
      with a have "w' > maxWidth' \<and> sz' > minSize'" by (simp add: w0_def)
      with body eq a(1) w have
        "f M s maxWidth minSize family weight letter sz w0
           (snd (measureWithTrackingForContext M
                   (set_font \<lparr>fweight = weight, fsize = sz, ffamily = family\<rparr> c') s letter)) = Some y'"
        by simp
      from IH [OF this] show False by simp
    qed
  qed
  from gen [OF y] show False by simp
qed

lemma fit_loop_double_exact:
  assumes "\<And>j::nat. minSize < sz - 2 * real j \<Longrightarrow>
             sub_double (sz - 2 * real j) 2 = sz - 2 * real j - 2"
  shows "fit_loop_double M s maxWidth minSize family weight letter sz w c
           = Some (fit_loop M s maxWidth minSize family weight letter sz w c)"
  using assms
proof (induction M s maxWidth minSize family weight letter sz w c rule: fit_loop.induct)
  case (1 M s maxWidth minSize family weight letter sz w c)
  show ?case
  proof (cases "w > maxWidth \<and> sz > minSize")
    case False
    then show ?thesis by (simp add: fit_loop_double_done fit_loop_done)
  next
    case True
    from True "1.prems" [of 0] have s0: "sub_double sz 2 = sz - 2" by simp
    have "sub_double (sz - 2 - 2 * real j) 2 = sz - 2 - 2 * real j - 2"
      if "minSize < sz - 2 - 2 * real j" for j
      using "1.prems" [of "Suc j"] that by (simp add: algebra_simps)
    from "1.IH" [OF True refl refl refl this] True show ?thesis
      by (simp add: fit_loop_double_step fit_loop_step s0)
  qed
qed

lemma sub_double_int:
  assumes "\<bar>n - 2\<bar> < 2 ^ 53" shows "sub_double (real_of_int n) 2 = real_of_int n - 2"
  using to_double_int [OF assms] by (simp add: sub_double_def)

lemma ladder_exact_int:
  assumes "n \<le> 2 ^ 52" "- (2 ^ 52) \<le> minSize" "minSize < real_of_int n - 2 * real j"
  shows "sub_double (real_of_int n - 2 * real j) 2 = real_of_int n - 2 * real j - 2"
proof -
  have e: "real_of_int n - 2 * real j = real_of_int (n - 2 * int j)" by simp
  from assms(2,3) have "- (2 ^ 52) < real_of_int (n - 2 * int j)" unfolding e by linarith
  then have "- (2 ^ 52) < n - 2 * int j" by (simp only: of_int_less_iff [symmetric, where 'a = real]) simp
  with assms(1) have "\<bar>(n - 2 * int j) - 2\<bar> < 2 ^ 53" by (simp add: abs_less_iff)
  from sub_double_int [OF this] show ?thesis unfolding e .
qed

text \<open>
  On an integer maximum size, as every maximum of an export is (260, 780 and 120 at
  scale 1), the ladder in double arithmetic is the exact one.
\<close>

lemma fit_double_agrees_int:
  assumes "n \<le> 2 ^ 52" "- (2 ^ 52) \<le> default_to 24 minSize_opt"
  shows "fitTextForContext_double M c s maxWidth (real_of_int n) minSize_opt family weight_opt letter_opt
           = Some (fitTextForContext M c s maxWidth (real_of_int n) minSize_opt family weight_opt
                     letter_opt)"
  unfolding fitTextForContext_double_def fitTextForContext_def Let_def
  by (intro fit_loop_double_exact ladder_exact_int [OF assms])

lemma tracked_width_font:
  "fst (measureWithTrackingForContext M (set_font f c) s letter)
     = M f s + letter * real_of_int (max 0 (int (length s) - 1))"
  by (simp add: tracked_width measureText_def set_font_def)

text \<open>
  C9, as stated, fails. With \<open>maxSize = 1e17\<close>, the floor 24 and a text too wide for the
  box, \<^verbatim>\<open>size -= 2\<close> leaves the size at \<^verbatim>\<open>1e17\<close>, the font and the width stay the same, and
  the loop never returns.
\<close>

theorem fit_terminates_counterexample:
  "fitTextForContext_double mono_metrics fresh_ctx ''Perl'' 10 (10 ^ 17) (Some 24) ''TrueNo-Black''
     None None = None"
proof -
  have sd: "sub_double (10 ^ 17) 2 = 10 ^ 17" by code_simp
  have wide: "10 < mono_metrics \<lparr>fweight = ''900'', fsize = 10 ^ 17, ffamily = ''TrueNo-Black''\<rparr> ''Perl''
                    + 0 * real_of_int (max 0 (int (length ''Perl'') - 1))"
    by (simp add: mono_metrics_def)
  have fl: "(24::real) < 10 ^ 17" by simp
  from fit_loop_double_stuck [where M = mono_metrics and s = "''Perl''" and letter = 0
      and weight = "''900''" and family = "''TrueNo-Black''" and sz = "10 ^ 17" and minSize = 24
      and maxWidth = 10 and c = "snd (measureWithTrackingForContext mono_metrics
        (set_font \<lparr>fweight = ''900'', fsize = 10 ^ 17, ffamily = ''TrueNo-Black''\<rparr> fresh_ctx) ''Perl'' 0)",
      OF sd fl wide]
  show ?thesis
    by (simp only: fitTextForContext_double_def Let_def default_to_def option.case tracked_width_font)
qed

text \<open>
  C9, amended. The fit loop, with the size ladder in double arithmetic, returns on every
  input with \<open>minSize\<close> at least \<open>- 2 ^ 52\<close> and \<open>maxSize\<close> at most \<open>2 ^ 52\<close>, a text that
  fits at no size and \<open>maxSize \<le> minSize\<close> included: each round lowers the size by 2 up
  to rounding, so after one measurement before the loop and one in each of \<open>k\<close> rounds,
  \<open>k\<close> at most \<open>maxSize - minSize\<close> rounded up, it returns because the text fits or the
  size has reached the floor. On every input whose ladder is exact (each subtraction of
  2 from a size above the floor gives the exact difference, as on integer sizes) it
  returns what the exact ladder gives: the size \<open>maxSize - 2 * k\<close> after \<open>k\<close> rounds, \<open>k\<close> at
  most \<open>(maxSize - minSize) / 2\<close> rounded up.
\<close>

theorem fit_returns_in_range:
  "(- (2 ^ 52) \<le> default_to 24 minSize_opt \<and> maxSize \<le> 2 ^ 52 \<longrightarrow>
      (\<exists>r c' k.
          fitTextForContext_double M c s maxWidth maxSize minSize_opt family weight_opt letter_opt
            = Some (r, c')
        \<and> measure_calls c' = measure_calls c + 1 + k
        \<and> k \<le> nat \<lceil>maxSize - default_to 24 minSize_opt\<rceil>
        \<and> fit_size r \<le> maxSize
        \<and> (fit_width r \<le> maxWidth \<or> fit_size r \<le> default_to 24 minSize_opt)))
   \<and> ((\<forall>j::nat. default_to 24 minSize_opt < maxSize - 2 * real j \<longrightarrow>
           sub_double (maxSize - 2 * real j) 2 = maxSize - 2 * real j - 2) \<longrightarrow>
      (\<exists>r c' k.
          fitTextForContext_double M c s maxWidth maxSize minSize_opt family weight_opt letter_opt
            = Some (r, c')
        \<and> (r, c') = fitTextForContext M c s maxWidth maxSize minSize_opt family weight_opt letter_opt
        \<and> fit_size r = maxSize - 2 * real k
        \<and> measure_calls c' = measure_calls c + 1 + k
        \<and> k \<le> nat \<lceil>(maxSize - default_to 24 minSize_opt) / 2\<rceil>
        \<and> (fit_width r \<le> maxWidth \<or> fit_size r \<le> default_to 24 minSize_opt)))"
proof (intro conjI impI)
  define c1 where "c1 = set_font \<lparr>fweight = default_to ''900'' weight_opt, fsize = maxSize,
                                  ffamily = family\<rparr> c"
  define r1 where "r1 = measureWithTrackingForContext M c1 s (default_to 0 letter_opt)"
  have e: "fitTextForContext_double M c s maxWidth maxSize minSize_opt family weight_opt letter_opt
             = fit_loop_double M s maxWidth (default_to 24 minSize_opt) family
                 (default_to ''900'' weight_opt) (default_to 0 letter_opt) maxSize (fst r1) (snd r1)"
    by (simp add: fitTextForContext_double_def Let_def r1_def c1_def)
  have m: "measure_calls (snd r1) = measure_calls c + 1" by (simp add: r1_def c1_def)
  {
    assume rg: "- (2 ^ 52) \<le> default_to 24 minSize_opt \<and> maxSize \<le> 2 ^ 52"
    then have rg1: "- (2 ^ 52) \<le> default_to 24 minSize_opt" and rg2: "maxSize \<le> 2 ^ 52" by simp_all
    from fit_loop_double_returns [OF rg1 rg2, of M s maxWidth family "default_to ''900'' weight_opt"
        "default_to 0 letter_opt" "fst r1" "snd r1"]
    obtain r c' k where k:
      "fit_loop_double M s maxWidth (default_to 24 minSize_opt) family
         (default_to ''900'' weight_opt) (default_to 0 letter_opt) maxSize (fst r1) (snd r1) = Some (r, c')"
      "measure_calls c' = measure_calls (snd r1) + k"
      "k \<le> nat \<lceil>maxSize - default_to 24 minSize_opt\<rceil>" "fit_size r \<le> maxSize"
      "fit_width r \<le> maxWidth \<or> fit_size r \<le> default_to 24 minSize_opt"
      by blast
    from k(2) m have "measure_calls c' = measure_calls c + 1 + k" by simp
    with k(1,3,4,5) show "\<exists>r c' k.
          fitTextForContext_double M c s maxWidth maxSize minSize_opt family weight_opt letter_opt
            = Some (r, c')
        \<and> measure_calls c' = measure_calls c + 1 + k
        \<and> k \<le> nat \<lceil>maxSize - default_to 24 minSize_opt\<rceil>
        \<and> fit_size r \<le> maxSize
        \<and> (fit_width r \<le> maxWidth \<or> fit_size r \<le> default_to 24 minSize_opt)"
      unfolding e by (intro exI [of _ r] exI [of _ c'] exI [of _ k]) (simp only: simp_thms)
  }
  {
    assume ex: "\<forall>j::nat. default_to 24 minSize_opt < maxSize - 2 * real j \<longrightarrow>
           sub_double (maxSize - 2 * real j) 2 = maxSize - 2 * real j - 2"
    define res where "res = fitTextForContext M c s maxWidth maxSize minSize_opt family weight_opt letter_opt"
    have re: "res = fit_loop M s maxWidth (default_to 24 minSize_opt) family
                 (default_to ''900'' weight_opt) (default_to 0 letter_opt) maxSize (fst r1) (snd r1)"
      by (simp add: res_def fitTextForContext_def Let_def r1_def c1_def)
    from ex have "fit_loop_double M s maxWidth (default_to 24 minSize_opt) family
                 (default_to ''900'' weight_opt) (default_to 0 letter_opt) maxSize (fst r1) (snd r1)
                 = Some res"
      unfolding re by (intro fit_loop_double_exact) simp
    then have d: "fitTextForContext_double M c s maxWidth maxSize minSize_opt family weight_opt letter_opt
                    = Some (fst res, snd res)"
      unfolding e by simp
    from fit_exact_rounds [of M c s maxWidth maxSize minSize_opt family weight_opt letter_opt]
    obtain k where k: "fit_size (fst res) = maxSize - 2 * real k"
        "measure_calls (snd res) = measure_calls c + 1 + k"
        "k \<le> nat \<lceil>(maxSize - default_to 24 minSize_opt) / 2\<rceil>"
        "fit_width (fst res) \<le> maxWidth \<or> fit_size (fst res) \<le> default_to 24 minSize_opt"
      unfolding res_def by blast
    have "(fst res, snd res) = res" by simp
    with d k show "\<exists>r c' k.
          fitTextForContext_double M c s maxWidth maxSize minSize_opt family weight_opt letter_opt
            = Some (r, c')
        \<and> (r, c') = fitTextForContext M c s maxWidth maxSize minSize_opt family weight_opt letter_opt
        \<and> fit_size r = maxSize - 2 * real k
        \<and> measure_calls c' = measure_calls c + 1 + k
        \<and> k \<le> nat \<lceil>(maxSize - default_to 24 minSize_opt) / 2\<rceil>
        \<and> (fit_width r \<le> maxWidth \<or> fit_size r \<le> default_to 24 minSize_opt)"
      unfolding res_def [symmetric]
      by (intro exI [of _ "fst res"] exI [of _ "snd res"] exI [of _ k]) (simp only: simp_thms)
  }
qed

theorem fit_returns_in_range_witness:
  "- (2 ^ 52) \<le> default_to (24::real) (Some 24) \<and> (30::real) \<le> 2 ^ 52
   \<and> (\<exists>r c' k.
          fitTextForContext_double mono_metrics fresh_ctx ''Programming'' 10 30 (Some 24)
            ''TrueNo-Black'' None None = Some (r, c')
        \<and> measure_calls c' = measure_calls fresh_ctx + 1 + k
        \<and> k \<le> nat \<lceil>(30::real) - default_to 24 (Some 24)\<rceil>
        \<and> fit_size r \<le> 30
        \<and> (fit_width r \<le> 10 \<or> fit_size r \<le> default_to 24 (Some 24)))
   \<and> (\<exists>r c' k.
          fitTextForContext_double mono_metrics fresh_ctx ''Programming'' 10 30 (Some 24)
            ''TrueNo-Black'' None None = Some (r, c')
        \<and> (r, c') = fitTextForContext mono_metrics fresh_ctx ''Programming'' 10 30 (Some 24)
            ''TrueNo-Black'' None None
        \<and> fit_size r = 30 - 2 * real k
        \<and> measure_calls c' = measure_calls fresh_ctx + 1 + k
        \<and> k \<le> nat \<lceil>((30::real) - default_to 24 (Some 24)) / 2\<rceil>
        \<and> (fit_width r \<le> 10 \<or> fit_size r \<le> default_to 24 (Some 24)))"
proof -
  have rg: "- (2 ^ 52) \<le> default_to (24::real) (Some 24) \<and> (30::real) \<le> 2 ^ 52"
    by (simp add: default_to_def)
  have ex: "\<forall>j::nat. default_to 24 (Some 24) < 30 - 2 * real j \<longrightarrow>
           sub_double (30 - 2 * real j) 2 = 30 - 2 * real j - 2"
  proof (intro allI impI)
    fix j :: nat
    assume "default_to 24 (Some 24) < 30 - 2 * real j"
    then have "(24::real) < real_of_int 30 - 2 * real j" by (simp add: default_to_def)
    from ladder_exact_int [of 30 24 j, OF _ _ this]
    show "sub_double (30 - 2 * real j) 2 = 30 - 2 * real j - 2" by simp
  qed
  note t = fit_returns_in_range [of "Some 24" 30 mono_metrics fresh_ctx "''Programming''" 10
      "''TrueNo-Black''" None None]
  note a = t [THEN conjunct1, THEN mp, OF rg]
  note b = t [THEN conjunct2, THEN mp, OF ex]
  from rg have r1: "- (2 ^ 52) \<le> default_to (24::real) (Some 24)" and r2: "(30::real) \<le> 2 ^ 52"
    by simp_all
  show ?thesis by (intro conjI) (rule r1 r2 a b)+
qed

section \<open>Properties of the colour helper\<close>


















section \<open>The log of calls\<close>

lemma calls_emit [simp]: "calls (emit k c) = calls c @ [k]"
  by (simp add: emit_def)

lemma cur_emit [simp]: "cur (emit k c) = cur c"
  by (simp add: emit_def)

lemma calls_setters [simp]:
  "calls (set_font f c) = calls c"
  "calls (set_fillStyle s c) = calls c"
  "calls (set_textBaseline b c) = calls c"
  "calls (set_globalAlpha a c) = calls c"
  "calls (set_globalCompositeOperation g c) = calls c"
  by (simp_all add: set_font_def set_fillStyle_def set_textBaseline_def set_globalAlpha_def
      set_globalCompositeOperation_def)

lemma calls_measureText [simp]:
  "calls (snd (measureText M c s)) = calls c @ [MeasureText (font (cur c)) s]"
  by (simp add: measureText_def)

lemma cur_measureText [simp]: "cur (snd (measureText M c s)) = cur c"
  by (simp add: measureText_def)

lemma calls_tracked [simp]:
  "calls (snd (measureWithTrackingForContext M c s letter)) = calls c @ [MeasureText (font (cur c)) s]"
  by (simp add: tracked_surface)

lemma calls_fillText [simp]: "calls (fillText s x y c) = calls c @ [FillText (cur c) s x y]"
  by (simp add: fillText_def)

lemma cur_fillText [simp]: "cur (fillText s x y c) = cur c"
  by (simp add: fillText_def)

lemma fit_loop_calls_shape:
  "\<exists>ms. calls (snd (fit_loop M s maxWidth minSize family weight letter sz w c)) = calls c @ ms
        \<and> list_all is_measure ms"
proof (induction M s maxWidth minSize family weight letter sz w c rule: fit_loop.induct)
  case (1 M s maxWidth minSize family weight letter sz w c)
  show ?case
  proof (cases "w > maxWidth \<and> sz > minSize")
    case True
    from "1" [OF True refl refl refl] True show ?thesis
      by (auto simp: fit_loop_step)
  next
    case False
    then show ?thesis by (simp add: fit_loop_done)
  qed
qed

lemma fit_calls_shape:
  "\<exists>ms. calls (snd (fitTextForContext M c s maxWidth maxSize mo family wo lo)) = calls c @ ms
        \<and> list_all is_measure ms"
proof -
  define c1 where "c1 = set_font \<lparr>fweight = default_to ''900'' wo, fsize = maxSize, ffamily = family\<rparr> c"
  define r where "r = measureWithTrackingForContext M c1 s (default_to 0 lo)"
  from fit_loop_calls_shape [of M s maxWidth "default_to 24 mo" family "default_to ''900'' wo"
      "default_to 0 lo" maxSize "fst r" "snd r"]
  obtain ms where "calls (snd (fitTextForContext M c s maxWidth maxSize mo family wo lo)) = calls (snd r) @ ms"
    "list_all is_measure ms"
    by (auto simp: fitTextForContext_def Let_def r_def c1_def)
  then show ?thesis
    by (intro exI [of _ "MeasureText (font (cur c1)) s # ms"]) (simp add: r_def c1_def)
qed

lemma draw_chars_calls:
  "\<exists>ys. calls (draw_chars M s x y letter c) = calls c @ ys"
proof (induction s arbitrary: x c)
  case Nil
  show ?case by simp
next
  case (Cons ch rest)
  from Cons [of "x + (fst (measureText M (fillText [ch] x y c) [ch]) + letter)"
      "snd (measureText M (fillText [ch] x y c) [ch])"]
  show ?case by (auto simp: Let_def split: prod.splits)
qed

lemma draw_chars_first:
  "\<exists>ys. calls (draw_chars M (ch # rest) x y letter c) = calls c @ FillText (cur c) [ch] x y # ys"
  using draw_chars_calls [of M rest "x + (fst (measureText M (fillText [ch] x y c) [ch]) + letter)" y letter
      "snd (measureText M (fillText [ch] x y c) [ch])"]
  by (auto simp: Let_def split: prod.splits)

lemma drawTracked_calls:
  "\<exists>ys. calls (drawTrackedTextForContext M c s x y letter) = calls c @ ys"
  using draw_chars_calls [of M s x y letter c]
  by (auto simp: drawTrackedTextForContext_def)

lemma drawTracked_first:
  "letter \<noteq> 0 \<Longrightarrow>
   \<exists>ys. calls (drawTrackedTextForContext M c (ch # rest) x y letter)
           = calls c @ FillText (cur c) [ch] x y # ys"
  using draw_chars_first [of M ch rest x y letter c]
  by (simp add: drawTrackedTextForContext_def)

lemma stack_calls_cur_save [simp]:
  "calls (save c) = calls c @ [Save]" "cur (save c) = cur c"
  by (simp_all add: save_def)

lemma calls_restore [simp]: "calls (restore c) = calls c @ [Restore]"
  by (simp add: restore_def split: list.splits)

lemma calls_fillRect [simp]: "calls (fillRect x y w h c) = calls c @ [FillRect (cur c) x y w h]"
  by (simp add: fillRect_def)

lemma calls_drawImage [simp]:
  "calls (drawImage im x y w h c) = calls c @ [DrawImage (cur c) im x y w h]"
  by (simp add: drawImage_def)

lemma cur_set_fillStyle [simp]: "cur (set_fillStyle s c) = (cur c)\<lparr>fillStyle := s\<rparr>"
  by (simp add: set_fillStyle_def)

lemma cur_set_textBaseline [simp]: "cur (set_textBaseline b c) = (cur c)\<lparr>textBaseline := b\<rparr>"
  by (simp add: set_textBaseline_def)

lemma cur_set_font [simp]: "cur (set_font f c) = (cur c)\<lparr>font := f\<rparr>"
  by (simp add: set_font_def)

lemma cur_draw_chars [simp]: "cur (draw_chars M s x y letter c) = cur c"
proof (induction s arbitrary: x c)
  case Nil
  show ?case by simp
next
  case (Cons ch rest)
  from Cons [of "x + (fst (measureText M (fillText [ch] x y c) [ch]) + letter)"
      "snd (measureText M (fillText [ch] x y c) [ch])"]
  show ?case by (auto simp: Let_def split: prod.splits)
qed

lemma cur_drawTracked [simp]: "cur (drawTrackedTextForContext M c s x y letter) = cur c"
  by (simp add: drawTrackedTextForContext_def)

text \<open>What each section of the compositor adds to the log.\<close>

lemma draw_background_calls:
  "\<exists>ys. calls (draw_background st tint W H c)
           = calls c @ Save # FillRect ((cur c)\<lparr>fillStyle := tint\<rparr>) 0 0 W H # ys
        \<and> list_all (\<lambda>k. \<not> is_text k) ys"
  by (cases "img st") (simp_all add: draw_background_def Let_def)

lemma render_title1_none [simp]:
  "render_title1 M [] colX colW titleMax track family sc p = p"
  by (simp add: render_title1_def)

lemma render_title2_none [simp]:
  "render_title2 M [] colX colW titleMax track family sc p = p"
  by (simp add: render_title2_def)

lemma render_title1_calls:
  "\<exists>ys. calls (fst (render_title1 M title1 colX colW titleMax track family sc p)) = calls (fst p) @ ys"
proof (cases "title1 = []")
  case True
  then show ?thesis by simp
next
  case False
  define r where "r = fitTextForContext M (fst p) title1 colW titleMax None family
                      (Some ''900'') (Some track)"
  define c2 where "c2 = set_textBaseline Top
                     (set_font \<lparr>fweight = ''900'', fsize = fit_size (fst r), ffamily = family\<rparr> (snd r))"
  obtain ms where ms: "calls (snd r) = calls (fst p) @ ms"
    unfolding r_def using fit_calls_shape by blast
  obtain ys where ys: "calls (drawTrackedTextForContext M c2 title1 colX (snd p) track) = calls c2 @ ys"
    using drawTracked_calls by blast
  have e: "fst (render_title1 M title1 colX colW titleMax track family sc p)
             = drawTrackedTextForContext M c2 title1 colX (snd p) track"
    by (simp add: render_title1_def Let_def False r_def c2_def)
  from ms ys e show ?thesis by (simp add: c2_def)
qed

lemma render_title1_first:
  assumes "title1 = ch # rest" "track \<noteq> 0"
  shows "\<exists>ms d ys. calls (fst (render_title1 M title1 colX colW titleMax track family sc p))
                     = calls (fst p) @ ms @ FillText d [ch] colX (snd p) # ys
                  \<and> list_all is_measure ms \<and> textBaseline d = Top"
proof -
  define r where "r = fitTextForContext M (fst p) title1 colW titleMax None family
                      (Some ''900'') (Some track)"
  define c2 where "c2 = set_textBaseline Top
                     (set_font \<lparr>fweight = ''900'', fsize = fit_size (fst r), ffamily = family\<rparr> (snd r))"
  obtain ms where ms: "calls (snd r) = calls (fst p) @ ms" "list_all is_measure ms"
    unfolding r_def using fit_calls_shape by blast
  obtain ys where ys: "calls (drawTrackedTextForContext M c2 (ch # rest) colX (snd p) track)
                         = calls c2 @ FillText (cur c2) [ch] colX (snd p) # ys"
    using drawTracked_first [OF assms(2)] by blast
  have e: "fst (render_title1 M title1 colX colW titleMax track family sc p)
             = drawTrackedTextForContext M c2 (ch # rest) colX (snd p) track"
    by (simp add: render_title1_def Let_def assms(1) r_def c2_def)
  have "textBaseline (cur c2) = Top" by (simp add: c2_def)
  with ms ys e show ?thesis
    by (intro exI [of _ ms] exI [of _ "cur c2"] exI [of _ ys]) (simp add: c2_def)
qed

lemma render_title2_first:
  assumes "title2 = ch # rest" "track \<noteq> 0"
  shows "\<exists>ms d ys. calls (fst (render_title2 M title2 colX colW titleMax track family sc p))
                     = calls (fst p) @ ms @ FillText d [ch] colX (snd p) # ys
                  \<and> list_all is_measure ms \<and> textBaseline d = Top"
proof -
  define r where "r = fitTextForContext M (fst p) title2 colW (real_of_int (round_js (titleMax * 3)))
                      (Some titleMax) family (Some ''900'') (Some track)"
  define c2 where "c2 = set_textBaseline Top
                     (set_font \<lparr>fweight = ''900'', fsize = fit_size (fst r), ffamily = family\<rparr> (snd r))"
  obtain ms where ms: "calls (snd r) = calls (fst p) @ ms" "list_all is_measure ms"
    unfolding r_def using fit_calls_shape by blast
  obtain ys where ys: "calls (drawTrackedTextForContext M c2 (ch # rest) colX (snd p) track)
                         = calls c2 @ FillText (cur c2) [ch] colX (snd p) # ys"
    using drawTracked_first [OF assms(2)] by blast
  have e: "fst (render_title2 M title2 colX colW titleMax track family sc p)
             = drawTrackedTextForContext M c2 (ch # rest) colX (snd p) track"
    by (simp add: render_title2_def Let_def assms(1) r_def c2_def)
  have "textBaseline (cur c2) = Top" by (simp add: c2_def)
  with ms ys e show ?thesis
    by (intro exI [of _ ms] exI [of _ "cur c2"] exI [of _ ys]) (simp add: c2_def)
qed

lemma render_title2_calls:
  "\<exists>ys. calls (fst (render_title2 M title2 colX colW titleMax track family sc p)) = calls (fst p) @ ys"
proof (cases "title2 = []")
  case True
  then show ?thesis by simp
next
  case False
  define r where "r = fitTextForContext M (fst p) title2 colW (real_of_int (round_js (titleMax * 3)))
                      (Some titleMax) family (Some ''900'') (Some track)"
  define c2 where "c2 = set_textBaseline Top
                     (set_font \<lparr>fweight = ''900'', fsize = fit_size (fst r), ffamily = family\<rparr> (snd r))"
  obtain ms where ms: "calls (snd r) = calls (fst p) @ ms"
    unfolding r_def using fit_calls_shape by blast
  obtain ys where ys: "calls (drawTrackedTextForContext M c2 title2 colX (snd p) track) = calls c2 @ ys"
    using drawTracked_calls by blast
  have e: "fst (render_title2 M title2 colX colW titleMax track family sc p)
             = drawTrackedTextForContext M c2 title2 colX (snd p) track"
    by (simp add: render_title2_def Let_def False r_def c2_def)
  from ms ys e show ?thesis by (simp add: c2_def)
qed

lemma dimmed_white: "colorLuminance ''#ffffff'' (- 0.06) = Inr ''#f0f0f0''"
  by code_simp

lemma render_subtitle_none [simp]:
  "render_subtitle M [] ink colX colW family sc p = Inr p"
  by (simp add: render_subtitle_def)

lemma render_subtitle_white:
  assumes "sub \<noteq> []"
  shows "\<exists>q ms d. render_subtitle M sub ''#ffffff'' colX colW family sc p = Inr q
           \<and> calls (fst q) = calls (fst p) @ ms @ [FillText d sub colX (snd p + 48 * sc)]
           \<and> list_all is_measure ms \<and> fillStyle d = ''#f0f0f0'' \<and> textBaseline d = Alphabetic"
proof -
  define r where "r = fitTextForContext M (fst p) sub colW (120 * sc) (Some (40 * sc)) family
                      (Some ''normal'') (Some 0)"
  define c3 where "c3 = set_textBaseline Alphabetic (set_fillStyle ''#f0f0f0''
                     (set_font \<lparr>fweight = ''normal'', fsize = fit_size (fst r), ffamily = family\<rparr> (snd r)))"
  obtain ms where ms: "calls (snd r) = calls (fst p) @ ms" "list_all is_measure ms"
    unfolding r_def using fit_calls_shape by blast
  have e: "render_subtitle M sub ''#ffffff'' colX colW family sc p
             = Inr (fillText sub colX (snd p + 48 * sc) c3, snd p + 48 * sc + (fit_size (fst r) + 32 * sc))"
    unfolding render_subtitle_def dimmed_white
    by (simp add: Let_def assms r_def c3_def)
  show ?thesis
    unfolding e using ms
    by (intro exI [of _ "(fillText sub colX (snd p + 48 * sc) c3, snd p + 48 * sc + (fit_size (fst r) + 32 * sc))"]
        exI [of _ ms] exI [of _ "cur c3"]) (simp add: c3_def)
qed

lemma render_subtitle_ok:
  "\<exists>q ys. render_subtitle M sub ''#ffffff'' colX colW family sc p = Inr q
          \<and> calls (fst q) = calls (fst p) @ ys"
proof (cases "sub = []")
  case True
  then show ?thesis by simp
next
  case False
  from render_subtitle_white [OF False, of M colX colW family sc p] show ?thesis by force
qed

lemma render_author_calls:
  "\<exists>ys. calls (render_author M author ink W H pad family sc c) = calls c @ ys"
  by (simp add: render_author_def Let_def)

lemma render_logo_calls:
  "\<exists>ys. calls (render_logo st W H sc c) = calls c @ ys"
  by (cases "logo st") (simp_all add: render_logo_def Let_def)

text \<open>
  Past the guard the compositor is the chain of its sections, the two title sections
  given the same column, and the cursor starting at the padding plus 20 scaled units.
\<close>

lemma renderToContext_steps:
  assumes "0 < cwidth tc" "0 < cheight tc" "0 < nativeWidth st" "0 < nativeHeight st" "0 < scale st"
  shows "renderToContext M el_value st c tc =
    (case render_subtitle M (trim (el_value ''subtitle'')) ''#ffffff''
            (real_of_int (round_js (real_of_int (nativeWidth st) * 0.08)) * scale st)
            (real_of_int (nativeWidth st - round_js (real_of_int (nativeWidth st) * 0.08) * 2) * scale st)
            (or_default (bodyFont st) ''TrueNo-Book'') (scale st)
            (render_title2 M (trim (el_value ''title2''))
               (real_of_int (round_js (real_of_int (nativeWidth st) * 0.08)) * scale st)
               (real_of_int (nativeWidth st - round_js (real_of_int (nativeWidth st) * 0.08) * 2) * scale st)
               (260 * scale st) (- 2 * scale st) (or_default (titleFont st) ''TrueNo-Black'') (scale st)
               (render_title1 M (trim (el_value ''title1''))
                  (real_of_int (round_js (real_of_int (nativeWidth st) * 0.08)) * scale st)
                  (real_of_int (nativeWidth st - round_js (real_of_int (nativeWidth st) * 0.08) * 2) * scale st)
                  (260 * scale st) (- 2 * scale st) (or_default (titleFont st) ''TrueNo-Black'') (scale st)
                  (set_fillStyle ''#ffffff''
                     (draw_background st (el_value ''tint'') (real_of_int (cwidth tc))
                        (real_of_int (cheight tc)) c),
                   real_of_int (round_js (real_of_int (nativeWidth st) * 0.08)) * scale st
                     + 20 * scale st))) of
       Inl e \<Rightarrow> Inl e
     | Inr p3 \<Rightarrow>
         Inr (restore (render_logo st (real_of_int (cwidth tc)) (real_of_int (cheight tc)) (scale st)
                (render_author M (trim (el_value ''author'')) ''#ffffff'' (real_of_int (cwidth tc))
                   (real_of_int (cheight tc))
                   (real_of_int (round_js (real_of_int (nativeWidth st) * 0.08)) * scale st)
                   (or_default (bodyFont st) ''TrueNo-Book'') (scale st) (fst p3)))))"
  using assms unfolding renderToContext_def Let_def by (simp only: not_le [symmetric] simp_thms if_False)

text \<open>The log of each section, call for call.\<close>

lemma draw_chars_log:
  "calls (draw_chars M s x y letter c) = calls c @ spec_tracked_calls M (cur c) s x y letter"
proof (induction s arbitrary: x c)
  case Nil
  show ?case by simp
next
  case (Cons ch rest)
  from Cons [of "x + (fst (measureText M (fillText [ch] x y c) [ch]) + letter)"
      "snd (measureText M (fillText [ch] x y c) [ch])"]
  show ?case by (simp add: Let_def measureText_def split: prod.splits)
qed

lemma cur_tracked [simp]: "cur (snd (measureWithTrackingForContext M c s letter)) = cur c"
  by (simp add: tracked_surface)

lemma fit_loop_cur:
  "\<exists>f. cur (snd (fit_loop M s maxWidth minSize family weight letter sz w c)) = (cur c)\<lparr>font := f\<rparr>"
proof (induction M s maxWidth minSize family weight letter sz w c rule: fit_loop.induct)
  case (1 M s maxWidth minSize family weight letter sz w c)
  show ?case
  proof (cases "w > maxWidth \<and> sz > minSize")
    case True
    from "1" [OF True refl refl refl] True show ?thesis
      by (auto simp: fit_loop_step)
  next
    case False
    then show ?thesis by (intro exI [of _ "font (cur c)"]) (simp add: fit_loop_done)
  qed
qed

lemma fit_cur:
  "\<exists>f. cur (snd (fitTextForContext M c s maxWidth maxSize mo family wo lo)) = (cur c)\<lparr>font := f\<rparr>"
proof -
  define c1 where "c1 = set_font \<lparr>fweight = default_to ''900'' wo, fsize = maxSize, ffamily = family\<rparr> c"
  define r where "r = measureWithTrackingForContext M c1 s (default_to 0 lo)"
  from fit_loop_cur [of M s maxWidth "default_to 24 mo" family "default_to ''900'' wo"
      "default_to 0 lo" maxSize "fst r" "snd r"]
  obtain f where "cur (snd (fitTextForContext M c s maxWidth maxSize mo family wo lo)) = (cur (snd r))\<lparr>font := f\<rparr>"
    by (auto simp: fitTextForContext_def Let_def r_def c1_def)
  then show ?thesis by (intro exI [of _ f]) (simp add: r_def c1_def)
qed

lemma render_title1_log:
  assumes "title1 \<noteq> []" "track \<noteq> 0"
    and r_def: "r = fitTextForContext M (fst p) title1 colW titleMax None family (Some ''900'') (Some track)"
    and d_def: "d = (cur (fst p))\<lparr>font := \<lparr>fweight = ''900'', fsize = fit_size (fst r), ffamily = family\<rparr>,
                              textBaseline := Top\<rparr>"
  shows "calls (fst (render_title1 M title1 colX colW titleMax track family sc p))
           = calls (snd r) @ spec_tracked_calls M d title1 colX (snd p) track"
    "cur (fst (render_title1 M title1 colX colW titleMax track family sc p)) = d"
    "snd (render_title1 M title1 colX colW titleMax track family sc p)
           = snd p + (fit_size (fst r) * 0.95 + 8 * sc)"
proof -
  obtain f where f: "cur (snd r) = (cur (fst p))\<lparr>font := f\<rparr>"
    unfolding r_def using fit_cur by blast
  define c2 where "c2 = set_textBaseline Top
                     (set_font \<lparr>fweight = ''900'', fsize = fit_size (fst r), ffamily = family\<rparr> (snd r))"
  have cd: "cur c2 = d" by (simp add: c2_def d_def f)
  have cc: "calls c2 = calls (snd r)" by (simp add: c2_def)
  have e: "render_title1 M title1 colX colW titleMax track family sc p
             = (draw_chars M title1 colX (snd p) track c2, snd p + (fit_size (fst r) * 0.95 + 8 * sc))"
    using assms(1,2) by (simp add: render_title1_def Let_def r_def c2_def drawTrackedTextForContext_def)
  show "calls (fst (render_title1 M title1 colX colW titleMax track family sc p))
           = calls (snd r) @ spec_tracked_calls M d title1 colX (snd p) track"
    unfolding e by (simp add: draw_chars_log cd cc)
  show "cur (fst (render_title1 M title1 colX colW titleMax track family sc p)) = d"
    unfolding e by (simp add: cd)
  show "snd (render_title1 M title1 colX colW titleMax track family sc p)
           = snd p + (fit_size (fst r) * 0.95 + 8 * sc)"
    unfolding e by simp
qed

lemma render_title2_log:
  assumes "title2 \<noteq> []" "track \<noteq> 0"
    and r_def: "r = fitTextForContext M (fst p) title2 colW (real_of_int (round_js (titleMax * 3)))
                 (Some titleMax) family (Some ''900'') (Some track)"
    and d_def: "d = (cur (fst p))\<lparr>font := \<lparr>fweight = ''900'', fsize = fit_size (fst r), ffamily = family\<rparr>,
                              textBaseline := Top\<rparr>"
  shows "calls (fst (render_title2 M title2 colX colW titleMax track family sc p))
           = calls (snd r) @ spec_tracked_calls M d title2 colX (snd p) track"
    "cur (fst (render_title2 M title2 colX colW titleMax track family sc p)) = d"
    "snd (render_title2 M title2 colX colW titleMax track family sc p)
           = snd p + (fit_size (fst r) * 0.9 + 18 * sc)"
proof -
  obtain f where f: "cur (snd r) = (cur (fst p))\<lparr>font := f\<rparr>"
    unfolding r_def using fit_cur by blast
  define c2 where "c2 = set_textBaseline Top
                     (set_font \<lparr>fweight = ''900'', fsize = fit_size (fst r), ffamily = family\<rparr> (snd r))"
  have cd: "cur c2 = d" by (simp add: c2_def d_def f)
  have cc: "calls c2 = calls (snd r)" by (simp add: c2_def)
  have e: "render_title2 M title2 colX colW titleMax track family sc p
             = (draw_chars M title2 colX (snd p) track c2, snd p + (fit_size (fst r) * 0.9 + 18 * sc))"
    using assms(1,2) by (simp add: render_title2_def Let_def r_def c2_def drawTrackedTextForContext_def)
  show "calls (fst (render_title2 M title2 colX colW titleMax track family sc p))
           = calls (snd r) @ spec_tracked_calls M d title2 colX (snd p) track"
    unfolding e by (simp add: draw_chars_log cd cc)
  show "cur (fst (render_title2 M title2 colX colW titleMax track family sc p)) = d"
    unfolding e by (simp add: cd)
  show "snd (render_title2 M title2 colX colW titleMax track family sc p)
           = snd p + (fit_size (fst r) * 0.9 + 18 * sc)"
    unfolding e by simp
qed

lemma render_subtitle_log:
  assumes "sub \<noteq> []"
    and r_def: "r = fitTextForContext M (fst p) sub colW (120 * sc) (Some (40 * sc)) family
                 (Some ''normal'') (Some 0)"
    and d_def: "d = (cur (fst p))\<lparr>font := \<lparr>fweight = ''normal'', fsize = fit_size (fst r), ffamily = family\<rparr>,
                              fillStyle := ''#f0f0f0'', textBaseline := Alphabetic\<rparr>"
  shows "\<exists>q. render_subtitle M sub ''#ffffff'' colX colW family sc p = Inr q
           \<and> calls (fst q) = calls (snd r) @ [FillText d sub colX (snd p + 48 * sc)]
           \<and> cur (fst q) = d"
proof -
  obtain f where f: "cur (snd r) = (cur (fst p))\<lparr>font := f\<rparr>"
    unfolding r_def using fit_cur by blast
  define c3 where "c3 = set_textBaseline Alphabetic (set_fillStyle ''#f0f0f0''
                     (set_font \<lparr>fweight = ''normal'', fsize = fit_size (fst r), ffamily = family\<rparr> (snd r)))"
  have cd: "cur c3 = d" by (simp add: c3_def d_def f)
  have cc: "calls c3 = calls (snd r)" by (simp add: c3_def)
  have e: "render_subtitle M sub ''#ffffff'' colX colW family sc p
             = Inr (fillText sub colX (snd p + 48 * sc) c3, snd p + 48 * sc + (fit_size (fst r) + 32 * sc))"
    unfolding render_subtitle_def dimmed_white
    by (simp add: Let_def assms(1) r_def c3_def)
  show ?thesis unfolding e
    by (intro exI [of _ "(fillText sub colX (snd p + 48 * sc) c3, snd p + 48 * sc + (fit_size (fst r) + 32 * sc))"])
      (simp add: cd cc)
qed

lemma render_author_log:
  assumes "author \<noteq> []"
    and af_def: "af = \<lparr>fweight = ''normal'', fsize = 175 * sc, ffamily = family\<rparr>"
    and d_def: "d = (cur c)\<lparr>font := af, fillStyle := ink, textBaseline := Alphabetic\<rparr>"
  shows "calls (render_author M author ink W H pad family sc c)
           = calls c @ [MeasureText af author, FillText d author (W - pad - M af author) (H / 2)]"
    "cur (render_author M author ink W H pad family sc c) = d"
  using assms(1) by (simp_all add: render_author_def Let_def measureText_def af_def d_def)

lemma render_logo_log:
  "calls (render_logo st W H sc c)
     = calls c @ (case logo st of None \<Rightarrow> []
        | Some lg \<Rightarrow> [DrawImage (cur c) lg (W - 75 * sc - real_of_int (iwidth lg) * sc)
                        (H - 75 * sc - real_of_int (iheight lg) * sc)
                        (real_of_int (iwidth lg) * sc) (real_of_int (iheight lg) * sc)])"
  by (cases "logo st") (simp_all add: render_logo_def Let_def)

lemma draw_background_log:
  "calls (draw_background st tint W H c)
     = calls c @ [Save, FillRect ((cur c)\<lparr>fillStyle := tint\<rparr>) 0 0 W H]
        @ (case img st of None \<Rightarrow> []
           | Some im \<Rightarrow> [DrawImage ((cur c)\<lparr>fillStyle := tint, globalAlpha := 0.8,
                            globalCompositeOperation := Multiply\<rparr>) im 0 0 W H])
        @ [FillRect ((cur c)\<lparr>fillStyle := tint, globalAlpha := 0.3,
              globalCompositeOperation := (case img st of None \<Rightarrow> globalCompositeOperation (cur c)
                                           | Some im \<Rightarrow> SourceOver)\<rparr>) 0 0 W H]"
    "cur (draw_background st tint W H c)
     = (cur c)\<lparr>fillStyle := tint, globalAlpha := 1,
          globalCompositeOperation := (case img st of None \<Rightarrow> globalCompositeOperation (cur c)
                                           | Some im \<Rightarrow> SourceOver)\<rparr>"
  by (cases "img st"; simp add: draw_background_def Let_def set_globalAlpha_def
      set_globalCompositeOperation_def fillRect_def drawImage_def)+

section \<open>Properties of the compositor\<close>

lemma measure_not_text: "list_all is_measure ms \<Longrightarrow> list_all (\<lambda>k. \<not> is_text k) ms"
proof (induction ms)
  case Nil
  show ?case by simp
next
  case (Cons k ms)
  then show ?case by (cases k) simp_all
qed

text \<open>
  Past the guard, the log of a pass is the sequence of calls of the specification's nine
  steps, with the sizes and measurements of the three fits.
\<close>

lemma compose_pass_log:
  assumes g: "0 < cwidth tc" "0 < cheight tc" "0 < nativeWidth st" "0 < nativeHeight st" "0 < scale st"
    and sc_def: "sc = scale st"
    and colW_def: "colW = real_of_int (nativeWidth st - round_js (real_of_int (nativeWidth st) * 0.08) * 2) * sc"
    and tf_def: "tf = or_default (titleFont st) ''TrueNo-Black''"
    and bf_def: "bf = or_default (bodyFont st) ''TrueNo-Book''"
    and fit1_def: "fit1 = (\<lambda>ci. fitTextForContext M ci (trim (el_value ''title1'')) colW (260 * sc) None tf
                             (Some ''900'') (Some (- 2 * sc)))"
    and fit2_def: "fit2 = (\<lambda>ci. fitTextForContext M ci (trim (el_value ''title2'')) colW
                             (real_of_int (round_js (260 * sc * 3))) (Some (260 * sc)) tf
                             (Some ''900'') (Some (- 2 * sc)))"
    and fit3_def: "fit3 = (\<lambda>ci. fitTextForContext M ci (trim (el_value ''subtitle'')) colW (120 * sc)
                             (Some (40 * sc)) bf (Some ''normal'') (Some 0))"
  shows "\<exists>c' c1 c2 c3 ms1 ms2 ms3 dL.
           renderToContext M el_value st c tc = Inr c'
         \<and> calls (snd (fit1 c1)) = calls c1 @ ms1 \<and> list_all is_measure ms1
         \<and> calls (snd (fit2 c2)) = calls c2 @ ms2 \<and> list_all is_measure ms2
         \<and> calls (snd (fit3 c3)) = calls c3 @ ms3 \<and> list_all is_measure ms3
         \<and> globalAlpha dL = 1
         \<and> calls c' = calls c @ spec_compose_calls M el_value st tc (cur c)
               (fit_size (fst (fit1 c1))) (fit_size (fst (fit2 c2))) (fit_size (fst (fit3 c3)))
               ms1 ms2 ms3 dL"
proof -
  define W where "W = real_of_int (cwidth tc)"
  define H where "H = real_of_int (cheight tc)"
  define tint where "tint = el_value ''tint''"
  define pad where "pad = real_of_int (round_js (real_of_int (nativeWidth st) * 0.08)) * sc"
  define t1 where "t1 = trim (el_value ''title1'')"
  define t2 where "t2 = trim (el_value ''title2'')"
  define sub where "sub = trim (el_value ''subtitle'')"
  define au where "au = trim (el_value ''author'')"
  define gm where "gm = (case img st of None \<Rightarrow> globalCompositeOperation (cur c) | Some im \<Rightarrow> SourceOver)"
  define y0 where "y0 = pad + 20 * sc"
  define c0 where "c0 = draw_background st tint W H c"
  define cw where "cw = set_fillStyle ''#ffffff'' c0"
  define dW where "dW = (cur c)\<lparr>fillStyle := ''#ffffff'', globalAlpha := 1, globalCompositeOperation := gm\<rparr>"
  define p1 where "p1 = render_title1 M t1 pad colW (260 * sc) (- 2 * sc) tf sc (cw, y0)"
  define p2 where "p2 = render_title2 M t2 pad colW (260 * sc) (- 2 * sc) tf sc p1"
  have tr: "- 2 * sc \<noteq> 0" using g(5) by (simp add: sc_def)
  \<comment> \<open>the background\<close>
  define bgc where "bgc = [Save, FillRect ((cur c)\<lparr>fillStyle := tint\<rparr>) 0 0 W H]
        @ (case img st of None \<Rightarrow> []
           | Some im \<Rightarrow> [DrawImage ((cur c)\<lparr>fillStyle := tint, globalAlpha := 0.8,
                            globalCompositeOperation := Multiply\<rparr>) im 0 0 W H])
        @ [FillRect ((cur c)\<lparr>fillStyle := tint, globalAlpha := 0.3,
              globalCompositeOperation := gm\<rparr>) 0 0 W H]"
  have cw_calls: "calls cw = calls c @ bgc"
    unfolding cw_def c0_def bgc_def gm_def by (simp add: draw_background_log(1))
  have cw_cur: "cur cw = dW"
    unfolding cw_def c0_def dW_def gm_def by (simp add: draw_background_log(2))
  \<comment> \<open>title line 1\<close>
  define s1 where "s1 = fit_size (fst (fit1 cw))"
  define D1 where "D1 = \<lparr>font = \<lparr>fweight = ''900'', fsize = s1, ffamily = tf\<rparr>, fillStyle = ''#ffffff'',
                    textBaseline = Top, globalAlpha = 1, globalCompositeOperation = gm\<rparr>"
  obtain ms1 where ms1: "calls (snd (fit1 cw)) = calls cw @ ms1" "list_all is_measure ms1"
    unfolding fit1_def using fit_calls_shape by blast
  define T1 where "T1 = (if t1 = [] then [] else ms1 @ spec_tracked_calls M D1 t1 pad y0 (- 2 * sc))"
  define y1 where "y1 = (if t1 = [] then y0 else y0 + (s1 * 0.95 + 8 * sc))"
  have p1_facts: "calls (fst p1) = calls cw @ T1 \<and> snd p1 = y1
                  \<and> (\<exists>f b. cur (fst p1) = dW\<lparr>font := f, textBaseline := b\<rparr>)"
  proof (cases "t1 = []")
    case True
    then have pe: "p1 = (cw, y0)" by (simp add: p1_def)
    have "cur cw = dW\<lparr>font := font dW, textBaseline := textBaseline dW\<rparr>"
      by (simp add: cw_cur)
    with True pe show ?thesis
      by (intro conjI exI [of _ "font dW"] exI [of _ "textBaseline dW"]) (simp_all add: T1_def y1_def)
  next
    case False
    note L = render_title1_log [where M = M and p = "(cw, y0)" and colW = colW and titleMax = "260 * sc"
        and family = tf and colX = pad and sc = sc, OF False tr refl refl]
    have d: "(cur cw)\<lparr>font := \<lparr>fweight = ''900'', fsize = s1, ffamily = tf\<rparr>, textBaseline := Top\<rparr> = D1"
      unfolding cw_cur dW_def D1_def by (cases "cur c") simp
    have a: "calls (fst p1) = calls cw @ T1"
      using L(1) False ms1(1) d by (simp add: p1_def T1_def fit1_def t1_def s1_def)
    have b: "snd p1 = y1"
      using L(3) False by (simp add: p1_def y1_def fit1_def t1_def s1_def)
    have "cur (fst p1) = dW\<lparr>font := \<lparr>fweight = ''900'', fsize = s1, ffamily = tf\<rparr>, textBaseline := Top\<rparr>"
      using L(2) cw_cur by (simp add: p1_def fit1_def t1_def s1_def)
    with a b show ?thesis by blast
  qed
  then obtain f1 b1 where p1c: "calls (fst p1) = calls cw @ T1" and p1y: "snd p1 = y1"
    and p1d: "cur (fst p1) = dW\<lparr>font := f1, textBaseline := b1\<rparr>" by blast
  \<comment> \<open>title line 2\<close>
  define s2 where "s2 = fit_size (fst (fit2 (fst p1)))"
  define D2 where "D2 = \<lparr>font = \<lparr>fweight = ''900'', fsize = s2, ffamily = tf\<rparr>, fillStyle = ''#ffffff'',
                    textBaseline = Top, globalAlpha = 1, globalCompositeOperation = gm\<rparr>"
  obtain ms2 where ms2: "calls (snd (fit2 (fst p1))) = calls (fst p1) @ ms2" "list_all is_measure ms2"
    unfolding fit2_def using fit_calls_shape by blast
  define T2 where "T2 = (if t2 = [] then [] else ms2 @ spec_tracked_calls M D2 t2 pad y1 (- 2 * sc))"
  define y2 where "y2 = (if t2 = [] then y1 else y1 + (s2 * 0.9 + 18 * sc))"
  have p2_facts: "calls (fst p2) = calls (fst p1) @ T2 \<and> snd p2 = y2
                  \<and> (\<exists>f b. cur (fst p2) = dW\<lparr>font := f, textBaseline := b\<rparr>)"
  proof (cases "t2 = []")
    case True
    then have "p2 = p1" by (simp add: p2_def)
    with True p1d p1y show ?thesis by (auto simp: T2_def y2_def)
  next
    case False
    note L = render_title2_log [where M = M and p = p1 and colW = colW and titleMax = "260 * sc"
        and family = tf and colX = pad and sc = sc, OF False tr refl refl]
    have d: "(cur (fst p1))\<lparr>font := \<lparr>fweight = ''900'', fsize = s2, ffamily = tf\<rparr>, textBaseline := Top\<rparr> = D2"
      unfolding p1d dW_def D2_def by (cases "cur c") simp
    have a: "calls (fst p2) = calls (fst p1) @ T2"
      using L(1) False ms2(1) d p1y by (simp add: p2_def T2_def fit2_def t2_def s2_def)
    have b: "snd p2 = y2"
      using L(3) False p1y by (simp add: p2_def y2_def fit2_def t2_def s2_def)
    have "cur (fst p2) = dW\<lparr>font := \<lparr>fweight = ''900'', fsize = s2, ffamily = tf\<rparr>, textBaseline := Top\<rparr>"
      using L(2) p1d by (simp add: p2_def fit2_def t2_def s2_def)
    with a b show ?thesis by blast
  qed
  then obtain f2 b2 where p2c: "calls (fst p2) = calls (fst p1) @ T2" and p2y: "snd p2 = y2"
    and p2d: "cur (fst p2) = dW\<lparr>font := f2, textBaseline := b2\<rparr>" by blast
  \<comment> \<open>the subtitle\<close>
  define s3 where "s3 = fit_size (fst (fit3 (fst p2)))"
  define D3 where "D3 = \<lparr>font = \<lparr>fweight = ''normal'', fsize = s3, ffamily = bf\<rparr>, fillStyle = ''#f0f0f0'',
                    textBaseline = Alphabetic, globalAlpha = 1, globalCompositeOperation = gm\<rparr>"
  obtain ms3 where ms3: "calls (snd (fit3 (fst p2))) = calls (fst p2) @ ms3" "list_all is_measure ms3"
    unfolding fit3_def using fit_calls_shape by blast
  define SB where "SB = (if sub = [] then [] else ms3 @ [FillText D3 sub pad (y2 + 48 * sc)])"
  have p3_facts: "\<exists>p3 f a b. render_subtitle M sub ''#ffffff'' pad colW bf sc p2 = Inr p3
                  \<and> calls (fst p3) = calls (fst p2) @ SB
                  \<and> cur (fst p3) = dW\<lparr>font := f, fillStyle := a, textBaseline := b\<rparr>"
  proof (cases "sub = []")
    case True
    have "cur (fst p2) = dW\<lparr>font := f2, fillStyle := fillStyle dW, textBaseline := b2\<rparr>"
      unfolding p2d by simp
    with True show ?thesis
      by (intro exI [of _ p2] exI [of _ f2] exI [of _ "fillStyle dW"] exI [of _ b2]) (simp add: SB_def)
  next
    case False
    from render_subtitle_log [where M = M and p = p2 and colW = colW and family = bf and colX = pad
        and sc = sc, OF False refl refl]
    obtain q where q: "render_subtitle M sub ''#ffffff'' pad colW bf sc p2 = Inr q"
      "calls (fst q) = calls (snd (fit3 (fst p2))) @
          [FillText ((cur (fst p2))\<lparr>font := \<lparr>fweight = ''normal'', fsize = s3, ffamily = bf\<rparr>,
                        fillStyle := ''#f0f0f0'', textBaseline := Alphabetic\<rparr>) sub pad (snd p2 + 48 * sc)]"
      "cur (fst q) = (cur (fst p2))\<lparr>font := \<lparr>fweight = ''normal'', fsize = s3, ffamily = bf\<rparr>,
                        fillStyle := ''#f0f0f0'', textBaseline := Alphabetic\<rparr>"
      unfolding fit3_def sub_def s3_def by blast
    have d: "(cur (fst p2))\<lparr>font := \<lparr>fweight = ''normal'', fsize = s3, ffamily = bf\<rparr>,
                        fillStyle := ''#f0f0f0'', textBaseline := Alphabetic\<rparr> = D3"
      unfolding p2d dW_def D3_def by (cases "cur c") simp
    have a: "calls (fst q) = calls (fst p2) @ SB"
      using q(2) False ms3(1) p2y unfolding d by (simp add: SB_def)
    have b: "cur (fst q) = dW\<lparr>font := \<lparr>fweight = ''normal'', fsize = s3, ffamily = bf\<rparr>,
                        fillStyle := ''#f0f0f0'', textBaseline := Alphabetic\<rparr>"
      using q(3) unfolding p2d by simp
    from q(1) a b show ?thesis by blast
  qed
  then obtain p3 f3 a3 b3 where p3e: "render_subtitle M sub ''#ffffff'' pad colW bf sc p2 = Inr p3"
    and p3c: "calls (fst p3) = calls (fst p2) @ SB"
    and p3d: "cur (fst p3) = dW\<lparr>font := f3, fillStyle := a3, textBaseline := b3\<rparr>" by blast
  \<comment> \<open>the author\<close>
  define af where "af = \<lparr>fweight = ''normal'', fsize = 175 * sc, ffamily = bf\<rparr>"
  define D4 where "D4 = \<lparr>font = af, fillStyle = ''#ffffff'', textBaseline = Alphabetic, globalAlpha = 1,
                    globalCompositeOperation = gm\<rparr>"
  define AU where "AU = (if au = [] then []
                         else [MeasureText af au, FillText D4 au (W - pad - M af au) (H / 2)])"
  define c4 where "c4 = render_author M au ''#ffffff'' W H pad bf sc (fst p3)"
  have c4_facts: "calls c4 = calls (fst p3) @ AU
                  \<and> (\<exists>f a b. cur c4 = dW\<lparr>font := f, fillStyle := a, textBaseline := b\<rparr>)"
  proof (cases "au = []")
    case True
    then have "c4 = fst p3" by (simp add: c4_def render_author_def)
    with True p3d show ?thesis by (auto simp: AU_def)
  next
    case False
    note L = render_author_log [where M = M and ink = "''#ffffff''" and W = W and H = H and pad = pad
        and family = bf and sc = sc and c = "fst p3", OF False refl refl]
    have d: "(cur (fst p3))\<lparr>font := af, fillStyle := ''#ffffff'', textBaseline := Alphabetic\<rparr> = D4"
      unfolding p3d dW_def D4_def by (cases "cur c") simp
    have a: "calls c4 = calls (fst p3) @ AU"
      using L(1) False d by (simp add: c4_def AU_def af_def)
    have "cur c4 = dW\<lparr>font := af, fillStyle := ''#ffffff'', textBaseline := Alphabetic\<rparr>"
      using L(2) unfolding p3d by (simp add: c4_def af_def)
    with a show ?thesis by blast
  qed
  then obtain f4 a4 b4 where c4c: "calls c4 = calls (fst p3) @ AU"
    and c4d: "cur c4 = dW\<lparr>font := f4, fillStyle := a4, textBaseline := b4\<rparr>" by blast
  \<comment> \<open>the logo\<close>
  define LG where "LG = (case logo st of None \<Rightarrow> []
        | Some lg \<Rightarrow> [DrawImage (cur c4) lg (W - 75 * sc - real_of_int (iwidth lg) * sc)
                        (H - 75 * sc - real_of_int (iheight lg) * sc)
                        (real_of_int (iwidth lg) * sc) (real_of_int (iheight lg) * sc)])"
  define c5 where "c5 = render_logo st W H sc c4"
  have c5c: "calls c5 = calls c4 @ LG" unfolding c5_def LG_def by (rule render_logo_log)
  have dL: "globalAlpha (cur c4) = 1" unfolding c4d dW_def by simp
  \<comment> \<open>the pass\<close>
  have e: "renderToContext M el_value st c tc = Inr (restore c5)"
    using g p3e
    by (simp add: renderToContext_steps W_def H_def pad_def colW_def tf_def bf_def c0_def cw_def
        p1_def p2_def c4_def c5_def sc_def t1_def t2_def sub_def au_def tint_def y0_def)
  have all: "calls (restore c5) = calls c @ (bgc @ T1 @ T2 @ SB @ AU @ LG @ [Restore])"
    by (simp add: c5c c4c p3c p2c p1c cw_calls)
  have spec: "spec_compose_calls M el_value st tc (cur c) s1 s2 s3 ms1 ms2 ms3 (cur c4)
                = bgc @ T1 @ T2 @ SB @ AU @ LG @ [Restore]"
    unfolding spec_compose_calls_def Let_def bgc_def T1_def T2_def SB_def AU_def LG_def
      D1_def D2_def D3_def D4_def af_def y1_def y2_def y0_def pad_def gm_def
      W_def H_def tint_def t1_def t2_def sub_def au_def tf_def bf_def sc_def
    by simp
  show ?thesis
    using e ms1 ms2 ms3 dL all [folded spec]
    unfolding s1_def s2_def s3_def
    by (intro exI [of _ "restore c5"] exI [of _ cw] exI [of _ "fst p1"] exI [of _ "fst p2"]
        exI [of _ ms1] exI [of _ ms2] exI [of _ ms3] exI [of _ "cur c4"]) (simp only: simp_thms)
qed

text \<open>
  C5. When the target width, the target height, the native width, the native height or
  the scale is not strictly positive, a compose pass returns normally with the surface
  exactly as it was: no call on it, no state changed, no error. When all five are
  strictly positive it returns normally and what it adds to the log is the full render
  sequence, call for call: \<^verbatim>\<open>save()\<close> and the fill of the target in the tint; the image,
  if there is one, stretched over the target at opacity 0.8 in the multiply mode; the
  tint wash at opacity 0.3; title line 1, if non-empty, measured by its fit and drawn
  character by character from \<open>(pad, pad + 20 * scale)\<close> on the top baseline in white;
  title line 2 likewise, 0.95 of the line-1 size plus 8 scaled units lower; the
  subtitle, if non-empty, measured by its fit and drawn in \<^verbatim>\<open>#f0f0f0\<close> on the alphabetic
  baseline 48 scaled units below the cursor; the author, if non-empty, measured and
  drawn right-justified at half the height at size 175 scaled; the logo, if there is
  one, at the bottom right with a margin of 75 scaled units; and \<^verbatim>\<open>restore()\<close>.
\<close>

theorem compose_guard:
  "(cwidth tc \<le> 0 \<or> cheight tc \<le> 0 \<or> nativeWidth st \<le> 0 \<or> nativeHeight st \<le> 0 \<or> scale st \<le> 0
      \<longrightarrow> renderToContext M el_value st c tc = Inr c)
   \<and> (0 < cwidth tc \<and> 0 < cheight tc \<and> 0 < nativeWidth st \<and> 0 < nativeHeight st \<and> 0 < scale st
      \<longrightarrow>
       (let sc = scale st;
            colW = real_of_int (nativeWidth st - round_js (real_of_int (nativeWidth st) * 0.08) * 2) * sc;
            tf = or_default (titleFont st) ''TrueNo-Black'';
            bf = or_default (bodyFont st) ''TrueNo-Book'';
            fit1 = (\<lambda>ci. fitTextForContext M ci (trim (el_value ''title1'')) colW (260 * sc) None tf
                             (Some ''900'') (Some (- 2 * sc)));
            fit2 = (\<lambda>ci. fitTextForContext M ci (trim (el_value ''title2'')) colW
                             (real_of_int (round_js (260 * sc * 3))) (Some (260 * sc)) tf
                             (Some ''900'') (Some (- 2 * sc)));
            fit3 = (\<lambda>ci. fitTextForContext M ci (trim (el_value ''subtitle'')) colW (120 * sc)
                             (Some (40 * sc)) bf (Some ''normal'') (Some 0))
        in \<exists>c' c1 c2 c3 ms1 ms2 ms3 dL.
             renderToContext M el_value st c tc = Inr c'
           \<and> calls (snd (fit1 c1)) = calls c1 @ ms1 \<and> list_all is_measure ms1
           \<and> calls (snd (fit2 c2)) = calls c2 @ ms2 \<and> list_all is_measure ms2
           \<and> calls (snd (fit3 c3)) = calls c3 @ ms3 \<and> list_all is_measure ms3
           \<and> globalAlpha dL = 1
           \<and> calls c' = calls c @ spec_compose_calls M el_value st tc (cur c)
                 (fit_size (fst (fit1 c1))) (fit_size (fst (fit2 c2))) (fit_size (fst (fit3 c3)))
                 ms1 ms2 ms3 dL))"
proof (intro conjI impI)
  assume "cwidth tc \<le> 0 \<or> cheight tc \<le> 0 \<or> nativeWidth st \<le> 0 \<or> nativeHeight st \<le> 0 \<or> scale st \<le> 0"
  then show "renderToContext M el_value st c tc = Inr c"
    by (simp add: renderToContext_def Let_def)
next
  assume "0 < cwidth tc \<and> 0 < cheight tc \<and> 0 < nativeWidth st \<and> 0 < nativeHeight st \<and> 0 < scale st"
  then have g: "0 < cwidth tc" "0 < cheight tc" "0 < nativeWidth st" "0 < nativeHeight st" "0 < scale st"
    by simp_all
  show "let sc = scale st;
            colW = real_of_int (nativeWidth st - round_js (real_of_int (nativeWidth st) * 0.08) * 2) * sc;
            tf = or_default (titleFont st) ''TrueNo-Black'';
            bf = or_default (bodyFont st) ''TrueNo-Book'';
            fit1 = (\<lambda>ci. fitTextForContext M ci (trim (el_value ''title1'')) colW (260 * sc) None tf
                             (Some ''900'') (Some (- 2 * sc)));
            fit2 = (\<lambda>ci. fitTextForContext M ci (trim (el_value ''title2'')) colW
                             (real_of_int (round_js (260 * sc * 3))) (Some (260 * sc)) tf
                             (Some ''900'') (Some (- 2 * sc)));
            fit3 = (\<lambda>ci. fitTextForContext M ci (trim (el_value ''subtitle'')) colW (120 * sc)
                             (Some (40 * sc)) bf (Some ''normal'') (Some 0))
        in \<exists>c' c1 c2 c3 ms1 ms2 ms3 dL.
             renderToContext M el_value st c tc = Inr c'
           \<and> calls (snd (fit1 c1)) = calls c1 @ ms1 \<and> list_all is_measure ms1
           \<and> calls (snd (fit2 c2)) = calls c2 @ ms2 \<and> list_all is_measure ms2
           \<and> calls (snd (fit3 c3)) = calls c3 @ ms3 \<and> list_all is_measure ms3
           \<and> globalAlpha dL = 1
           \<and> calls c' = calls c @ spec_compose_calls M el_value st tc (cur c)
                 (fit_size (fst (fit1 c1))) (fit_size (fst (fit2 c2))) (fit_size (fst (fit3 c3)))
                 ms1 ms2 ms3 dL"
    unfolding Let_def by (rule compose_pass_log [OF g refl refl refl refl refl refl refl])
qed

theorem compose_guard_witness:
  "scale (demo_state 0) \<le> 0
   \<and> renderToContext mono_metrics (demo_fields ''#0a5c8a'' ''Perl'' ''School'' ''Learn Perl'' ''Dave'')
        (demo_state 0) fresh_ctx demo_canvas = Inr fresh_ctx
   \<and> 0 < cwidth demo_canvas \<and> 0 < cheight demo_canvas
   \<and> 0 < nativeWidth (demo_state_full 1) \<and> 0 < nativeHeight (demo_state_full 1)
   \<and> 0 < scale (demo_state_full 1)
   \<and> (\<exists>c' c1 c2 c3 ms1 ms2 ms3 dL.
         renderToContext mono_metrics (demo_fields ''#0a5c8a'' ''Perl'' ''School'' ''Learn Perl'' ''Dave'')
           (demo_state_full 1) fresh_ctx demo_canvas = Inr c'
       \<and> calls (snd (fitTextForContext mono_metrics c1 ''Perl'' 1344 260 None ''TrueNo-Black''
                        (Some ''900'') (Some (- 2)))) = calls c1 @ ms1
       \<and> list_all is_measure ms1
       \<and> calls (snd (fitTextForContext mono_metrics c2 ''School'' 1344 780 (Some 260) ''TrueNo-Black''
                        (Some ''900'') (Some (- 2)))) = calls c2 @ ms2
       \<and> list_all is_measure ms2
       \<and> calls (snd (fitTextForContext mono_metrics c3 ''Learn Perl'' 1344 120 (Some 40)
                        ''TrueNo-Regular'' (Some ''normal'') (Some 0))) = calls c3 @ ms3
       \<and> list_all is_measure ms3
       \<and> globalAlpha dL = 1
       \<and> calls c' = calls fresh_ctx
            @ spec_compose_calls mono_metrics
                (demo_fields ''#0a5c8a'' ''Perl'' ''School'' ''Learn Perl'' ''Dave'')
                (demo_state_full 1) demo_canvas (cur fresh_ctx)
                (fit_size (fst (fitTextForContext mono_metrics c1 ''Perl'' 1344 260 None ''TrueNo-Black''
                        (Some ''900'') (Some (- 2)))))
                (fit_size (fst (fitTextForContext mono_metrics c2 ''School'' 1344 780 (Some 260)
                        ''TrueNo-Black'' (Some ''900'') (Some (- 2)))))
                (fit_size (fst (fitTextForContext mono_metrics c3 ''Learn Perl'' 1344 120 (Some 40)
                        ''TrueNo-Regular'' (Some ''normal'') (Some 0))))
                ms1 ms2 ms3 dL)"
proof -
  let ?F = "demo_fields ''#0a5c8a'' ''Perl'' ''School'' ''Learn Perl'' ''Dave''"
  have h: "cwidth demo_canvas \<le> 0 \<or> cheight demo_canvas \<le> 0 \<or> nativeWidth (demo_state 0) \<le> 0
             \<or> nativeHeight (demo_state 0) \<le> 0 \<or> scale (demo_state 0) \<le> 0"
    by (simp add: demo_state_def)
  have g: "0 < cwidth demo_canvas \<and> 0 < cheight demo_canvas \<and> 0 < nativeWidth (demo_state_full 1)
             \<and> 0 < nativeHeight (demo_state_full 1) \<and> 0 < scale (demo_state_full 1)"
    by (simp add: demo_state_full_def demo_canvas_def)
  have tr: "trim (?F ''title1'') = ''Perl''" "trim (?F ''title2'') = ''School''"
    "trim (?F ''subtitle'') = ''Learn Perl''"
    by code_simp+
  have st: "scale (demo_state_full 1) = 1" "nativeWidth (demo_state_full 1) = 1600"
    "or_default (titleFont (demo_state_full 1)) ''TrueNo-Black'' = ''TrueNo-Black''"
    "or_default (bodyFont (demo_state_full 1)) ''TrueNo-Book'' = ''TrueNo-Regular''"
    by (simp_all add: demo_state_full_def or_default_def)
  have nm: "real_of_int (1600 - round_js (real_of_int 1600 * 0.08) * 2) * 1 = 1344"
    "real_of_int (round_js (260 * 1 * 3)) = 780"
    by (simp_all add: round_js_def)
  note a = compose_guard [where tc = demo_canvas and st = "demo_state 0" and M = mono_metrics
      and el_value = ?F and c = fresh_ctx, THEN conjunct1, THEN mp, OF h]
  note b = compose_guard [where tc = demo_canvas and st = "demo_state_full 1" and M = mono_metrics
      and el_value = ?F and c = fresh_ctx, THEN conjunct2, THEN mp, OF g, unfolded Let_def tr st nm]
  have s0: "scale (demo_state 0) \<le> 0" by (simp add: demo_state_def)
  from b have b': "\<exists>c' c1 c2 c3 ms1 ms2 ms3 dL.
         renderToContext mono_metrics ?F (demo_state_full 1) fresh_ctx demo_canvas = Inr c'
       \<and> calls (snd (fitTextForContext mono_metrics c1 ''Perl'' 1344 260 None ''TrueNo-Black''
                        (Some ''900'') (Some (- 2)))) = calls c1 @ ms1
       \<and> list_all is_measure ms1
       \<and> calls (snd (fitTextForContext mono_metrics c2 ''School'' 1344 780 (Some 260) ''TrueNo-Black''
                        (Some ''900'') (Some (- 2)))) = calls c2 @ ms2
       \<and> list_all is_measure ms2
       \<and> calls (snd (fitTextForContext mono_metrics c3 ''Learn Perl'' 1344 120 (Some 40)
                        ''TrueNo-Regular'' (Some ''normal'') (Some 0))) = calls c3 @ ms3
       \<and> list_all is_measure ms3
       \<and> globalAlpha dL = 1
       \<and> calls c' = calls fresh_ctx
            @ spec_compose_calls mono_metrics ?F (demo_state_full 1) demo_canvas (cur fresh_ctx)
                (fit_size (fst (fitTextForContext mono_metrics c1 ''Perl'' 1344 260 None ''TrueNo-Black''
                        (Some ''900'') (Some (- 2)))))
                (fit_size (fst (fitTextForContext mono_metrics c2 ''School'' 1344 780 (Some 260)
                        ''TrueNo-Black'' (Some ''900'') (Some (- 2)))))
                (fit_size (fst (fitTextForContext mono_metrics c3 ''Learn Perl'' 1344 120 (Some 40)
                        ''TrueNo-Regular'' (Some ''normal'') (Some 0))))
                ms1 ms2 ms3 dL"
    by simp
  from g have g1: "0 < cwidth demo_canvas" and g2: "0 < cheight demo_canvas"
    and g3: "0 < nativeWidth (demo_state_full 1)" and g4: "0 < nativeHeight (demo_state_full 1)"
    and g5: "0 < scale (demo_state_full 1)" by simp_all
  show ?thesis by (intro conjI) (rule s0 a g1 g2 g3 g4 g5 b')+
qed

text \<open>
  The log of a pass that gets past the guard: the background, which draws no text, then
  what the three cursor sections add, then the rest.
\<close>

lemma renderToContext_log:
  fixes M :: metrics and el_value :: fields and st :: state and c :: ctx2d and tc :: canvas_dims
  defines "sc \<equiv> scale st"
    and "pad \<equiv> real_of_int (round_js (real_of_int (nativeWidth st) * 0.08)) * scale st"
    and "colW \<equiv> real_of_int (nativeWidth st - round_js (real_of_int (nativeWidth st) * 0.08) * 2) * scale st"
    and "tf \<equiv> or_default (titleFont st) ''TrueNo-Black''"
    and "bf \<equiv> or_default (bodyFont st) ''TrueNo-Book''"
  assumes g: "0 < cwidth tc" "0 < cheight tc" "0 < nativeWidth st" "0 < nativeHeight st" "0 < scale st"
  shows "\<exists>c0 bg p3 tail c'.
           calls c0 = calls c @ bg \<and> list_all (\<lambda>k. \<not> is_text k) bg
         \<and> render_subtitle M (trim (el_value ''subtitle'')) ''#ffffff'' pad colW bf sc
              (render_title2 M (trim (el_value ''title2'')) pad colW (260 * sc) (- 2 * sc) tf sc
                 (render_title1 M (trim (el_value ''title1'')) pad colW (260 * sc) (- 2 * sc) tf sc
                    (c0, pad + 20 * sc))) = Inr p3
         \<and> renderToContext M el_value st c tc = Inr c' \<and> calls c' = calls (fst p3) @ tail"
proof -
  define W where "W = real_of_int (cwidth tc)"
  define H where "H = real_of_int (cheight tc)"
  define c0 where "c0 = set_fillStyle ''#ffffff'' (draw_background st (el_value ''tint'') W H c)"
  define p2 where "p2 = render_title2 M (trim (el_value ''title2'')) pad colW (260 * sc) (- 2 * sc) tf sc
                 (render_title1 M (trim (el_value ''title1'')) pad colW (260 * sc) (- 2 * sc) tf sc
                    (c0, pad + 20 * sc))"
  obtain p3 where p3: "render_subtitle M (trim (el_value ''subtitle'')) ''#ffffff'' pad colW bf sc p2 = Inr p3"
    using render_subtitle_ok by blast
  define c4 where "c4 = render_author M (trim (el_value ''author'')) ''#ffffff'' W H pad bf sc (fst p3)"
  define c5 where "c5 = render_logo st W H sc c4"
  have e: "renderToContext M el_value st c tc = Inr (restore c5)"
    using g p3
    by (simp add: renderToContext_steps W_def H_def pad_def colW_def tf_def bf_def c0_def
        p2_def c4_def c5_def sc_def)
  obtain y0 where y0: "calls c0 = calls c @ Save # FillRect ((cur c)\<lparr>fillStyle := el_value ''tint''\<rparr>) 0 0 W H # y0"
      "list_all (\<lambda>k. \<not> is_text k) y0"
    unfolding c0_def using draw_background_calls [of st "el_value ''tint''" W H c] by auto
  obtain y4 where y4: "calls c4 = calls (fst p3) @ y4"
    unfolding c4_def using render_author_calls by blast
  obtain y5 where y5: "calls c5 = calls c4 @ y5"
    unfolding c5_def using render_logo_calls by blast
  have "calls (restore c5) = calls (fst p3) @ (y4 @ y5 @ [Restore])"
    by (simp add: y4 y5)
  moreover have "list_all (\<lambda>k. \<not> is_text k)
                   (Save # FillRect ((cur c)\<lparr>fillStyle := el_value ''tint''\<rparr>) 0 0 W H # y0)"
    using y0(2) by simp
  ultimately show ?thesis
    using e y0(1) p3 unfolding p2_def
    by (intro exI [of _ c0] exI [of _ "Save # FillRect ((cur c)\<lparr>fillStyle := el_value ''tint''\<rparr>) 0 0 W H # y0"]
        exI [of _ p3] exI [of _ "y4 @ y5 @ [Restore]"] exI [of _ "restore c5"])
      (simp only: simp_thms)
qed

text \<open>
  C10. In a compose pass past the guard the vertical cursor starts at
  \<open>pad + 20 * scale\<close>, where \<open>pad\<close> is \<open>round(0.08 * nativeWidth) * scale\<close>: the first text
  the pass draws is the first character of title line 1 at \<open>(pad, pad + 20 * scale)\<close> on
  the top baseline; with title line 1 empty it is the first character of title line 2 at
  that same point; with both empty it is the subtitle, 48 scaled units further down on
  the alphabetic baseline. (The author line does not use the cursor.)
\<close>

theorem cursor_start:
  assumes "0 < cwidth tc" "0 < cheight tc" "0 < nativeWidth st" "0 < nativeHeight st" "0 < scale st"
  shows
   "let sc = scale st;
        pad = real_of_int (round_js (real_of_int (nativeWidth st) * 0.08)) * sc;
        title1 = trim (el_value ''title1'');
        title2 = trim (el_value ''title2'');
        sub = trim (el_value ''subtitle'')
    in (title1 \<noteq> [] \<longrightarrow>
          (\<exists>c' pre d post. renderToContext M el_value st c tc = Inr c'
             \<and> calls c' = calls c @ pre @ FillText d [hd title1] pad (pad + 20 * sc) # post
             \<and> list_all (\<lambda>k. \<not> is_text k) pre \<and> textBaseline d = Top))
     \<and> (title1 = [] \<and> title2 \<noteq> [] \<longrightarrow>
          (\<exists>c' pre d post. renderToContext M el_value st c tc = Inr c'
             \<and> calls c' = calls c @ pre @ FillText d [hd title2] pad (pad + 20 * sc) # post
             \<and> list_all (\<lambda>k. \<not> is_text k) pre \<and> textBaseline d = Top))
     \<and> (title1 = [] \<and> title2 = [] \<and> sub \<noteq> [] \<longrightarrow>
          (\<exists>c' pre d post. renderToContext M el_value st c tc = Inr c'
             \<and> calls c' = calls c @ pre @ FillText d sub pad (pad + 20 * sc + 48 * sc) # post
             \<and> list_all (\<lambda>k. \<not> is_text k) pre \<and> textBaseline d = Alphabetic))"
proof -
  define sc where "sc = scale st"
  define pad where "pad = real_of_int (round_js (real_of_int (nativeWidth st) * 0.08)) * scale st"
  define colW where
    "colW = real_of_int (nativeWidth st - round_js (real_of_int (nativeWidth st) * 0.08) * 2) * scale st"
  define tf where "tf = or_default (titleFont st) ''TrueNo-Black''"
  define bf where "bf = or_default (bodyFont st) ''TrueNo-Book''"
  define title1 where "title1 = trim (el_value ''title1'')"
  define title2 where "title2 = trim (el_value ''title2'')"
  define sub where "sub = trim (el_value ''subtitle'')"
  have "\<exists>c0 bg p3 tail c'.
           calls c0 = calls c @ bg \<and> list_all (\<lambda>k. \<not> is_text k) bg
         \<and> render_subtitle M sub ''#ffffff'' pad colW bf sc
              (render_title2 M title2 pad colW (260 * sc) (- 2 * sc) tf sc
                 (render_title1 M title1 pad colW (260 * sc) (- 2 * sc) tf sc
                    (c0, pad + 20 * sc))) = Inr p3
         \<and> renderToContext M el_value st c tc = Inr c' \<and> calls c' = calls (fst p3) @ tail"
    unfolding sc_def pad_def colW_def tf_def bf_def title1_def title2_def sub_def
    by (rule renderToContext_log [OF assms])
  then obtain c0 bg p3 tail c' where
    bg: "calls c0 = calls c @ bg" "list_all (\<lambda>k. \<not> is_text k) bg" and
    p3: "render_subtitle M sub ''#ffffff'' pad colW bf sc
           (render_title2 M title2 pad colW (260 * sc) (- 2 * sc) tf sc
              (render_title1 M title1 pad colW (260 * sc) (- 2 * sc) tf sc (c0, pad + 20 * sc))) = Inr p3" and
    r: "renderToContext M el_value st c tc = Inr c'" "calls c' = calls (fst p3) @ tail"
    by (elim exE conjE)
  define p1 where "p1 = render_title1 M title1 pad colW (260 * sc) (- 2 * sc) tf sc (c0, pad + 20 * sc)"
  define p2 where "p2 = render_title2 M title2 pad colW (260 * sc) (- 2 * sc) tf sc p1"
  have tr: "- 2 * sc \<noteq> 0" using assms(5) by (simp add: sc_def)
  let ?first = "\<lambda>txt y bl. \<exists>c' pre d post. renderToContext M el_value st c tc = Inr c'
             \<and> calls c' = calls c @ pre @ FillText d txt pad y # post
             \<and> list_all (\<lambda>k. \<not> is_text k) pre \<and> textBaseline d = bl"
  obtain y2 where y2: "calls (fst p2) = calls (fst p1) @ y2"
    unfolding p2_def using render_title2_calls by blast
  obtain q y3 where "render_subtitle M sub ''#ffffff'' pad colW bf sc p2 = Inr q"
      "calls (fst q) = calls (fst p2) @ y3"
    using render_subtitle_ok by blast
  with p3 have y3: "calls (fst p3) = calls (fst p2) @ y3" by (simp add: p2_def p1_def)
  have a: "?first [hd title1] (pad + 20 * sc) Top" if t: "title1 \<noteq> []"
  proof -
    from t obtain ch rest where cr: "title1 = ch # rest" by (cases title1) auto
    have "\<exists>ms d ys. calls (fst p1) = calls c0 @ ms @ FillText d [ch] pad (pad + 20 * sc) # ys
            \<and> list_all is_measure ms \<and> textBaseline d = Top"
      using render_title1_first [OF cr tr, of M pad colW "260 * sc" tf sc "(c0, pad + 20 * sc)"]
      unfolding p1_def by (simp only: fst_conv snd_conv)
    then obtain ms d ys where f: "calls (fst p1) = calls c0 @ ms @ FillText d [ch] pad (pad + 20 * sc) # ys"
        "list_all is_measure ms" "textBaseline d = Top"
      by blast
    have "calls c' = calls c @ (bg @ ms) @ FillText d [hd title1] pad (pad + 20 * sc) # (ys @ y2 @ y3 @ tail)"
      by (simp add: r(2) y3 y2 f(1) bg(1) cr)
    moreover have "list_all (\<lambda>k. \<not> is_text k) (bg @ ms)"
      using bg(2) measure_not_text [OF f(2)] by simp
    ultimately show ?thesis using r(1) f(3)
      by (intro exI [of _ c'] exI [of _ "bg @ ms"] exI [of _ d] exI [of _ "ys @ y2 @ y3 @ tail"])
        (simp only: simp_thms)
  qed
  have b: "?first [hd title2] (pad + 20 * sc) Top" if t: "title1 = []" "title2 \<noteq> []"
  proof -
    from t(2) obtain ch rest where cr: "title2 = ch # rest" by (cases title2) auto
    have p1e: "p1 = (c0, pad + 20 * sc)" by (simp add: p1_def t(1))
    have "\<exists>ms d ys. calls (fst p2) = calls c0 @ ms @ FillText d [ch] pad (pad + 20 * sc) # ys
            \<and> list_all is_measure ms \<and> textBaseline d = Top"
      using render_title2_first [OF cr tr, of M pad colW "260 * sc" tf sc "(c0, pad + 20 * sc)"]
      unfolding p2_def p1e by (simp only: fst_conv snd_conv)
    then obtain ms d ys where f: "calls (fst p2) = calls c0 @ ms @ FillText d [ch] pad (pad + 20 * sc) # ys"
        "list_all is_measure ms" "textBaseline d = Top"
      by blast
    have "calls c' = calls c @ (bg @ ms) @ FillText d [hd title2] pad (pad + 20 * sc) # (ys @ y3 @ tail)"
      by (simp add: r(2) y3 f(1) bg(1) cr)
    moreover have "list_all (\<lambda>k. \<not> is_text k) (bg @ ms)"
      using bg(2) measure_not_text [OF f(2)] by simp
    ultimately show ?thesis using r(1) f(3)
      by (intro exI [of _ c'] exI [of _ "bg @ ms"] exI [of _ d] exI [of _ "ys @ y3 @ tail"])
        (simp only: simp_thms)
  qed
  have s: "?first sub (pad + 20 * sc + 48 * sc) Alphabetic"
    if t: "title1 = []" "title2 = []" "sub \<noteq> []"
  proof -
    have p3': "render_subtitle M sub ''#ffffff'' pad colW bf sc (c0, pad + 20 * sc) = Inr p3"
      using p3 by (simp add: t(1,2))
    have "\<exists>q ms d. render_subtitle M sub ''#ffffff'' pad colW bf sc (c0, pad + 20 * sc) = Inr q
           \<and> calls (fst q) = calls c0 @ ms @ [FillText d sub pad (pad + 20 * sc + 48 * sc)]
           \<and> list_all is_measure ms \<and> fillStyle d = ''#f0f0f0'' \<and> textBaseline d = Alphabetic"
      using render_subtitle_white [OF t(3), of M pad colW bf sc "(c0, pad + 20 * sc)"]
      by (simp only: fst_conv snd_conv)
    then obtain q ms d where q: "render_subtitle M sub ''#ffffff'' pad colW bf sc (c0, pad + 20 * sc) = Inr q"
        "calls (fst q) = calls c0 @ ms @ [FillText d sub pad (pad + 20 * sc + 48 * sc)]"
        "list_all is_measure ms" "textBaseline d = Alphabetic"
      by blast
    from q(1) p3' have "q = p3" by simp
    with q have f: "calls (fst p3) = calls c0 @ ms @ [FillText d sub pad (pad + 20 * sc + 48 * sc)]"
        "list_all is_measure ms" "textBaseline d = Alphabetic"
      by simp_all
    have "calls c' = calls c @ (bg @ ms) @ FillText d sub pad (pad + 20 * sc + 48 * sc) # tail"
      by (simp add: r(2) f(1) bg(1))
    moreover have "list_all (\<lambda>k. \<not> is_text k) (bg @ ms)"
      using bg(2) measure_not_text [OF f(2)] by simp
    ultimately show ?thesis using r(1) f(3)
      by (intro exI [of _ c'] exI [of _ "bg @ ms"] exI [of _ d] exI [of _ tail])
        (simp only: simp_thms)
  qed
  have "(title1 \<noteq> [] \<longrightarrow> ?first [hd title1] (pad + 20 * sc) Top)
     \<and> (title1 = [] \<and> title2 \<noteq> [] \<longrightarrow> ?first [hd title2] (pad + 20 * sc) Top)
     \<and> (title1 = [] \<and> title2 = [] \<and> sub \<noteq> [] \<longrightarrow> ?first sub (pad + 20 * sc + 48 * sc) Alphabetic)"
  proof (intro conjI impI)
    assume "title1 \<noteq> []"
    then show "?first [hd title1] (pad + 20 * sc) Top" by (rule a)
  next
    assume "title1 = [] \<and> title2 \<noteq> []"
    then have "title1 = []" "title2 \<noteq> []" by simp_all
    then show "?first [hd title2] (pad + 20 * sc) Top" by (rule b)
  next
    assume "title1 = [] \<and> title2 = [] \<and> sub \<noteq> []"
    then have "title1 = []" "title2 = []" "sub \<noteq> []" by simp_all
    then show "?first sub (pad + 20 * sc + 48 * sc) Alphabetic" by (rule s)
  qed
  then show ?thesis
    unfolding Let_def sc_def pad_def title1_def title2_def sub_def .
qed

theorem cursor_start_witness:
  "0 < cwidth demo_canvas \<and> 0 < cheight demo_canvas \<and> 0 < nativeWidth (demo_state 1)
   \<and> 0 < nativeHeight (demo_state 1) \<and> 0 < scale (demo_state 1)
   \<and> trim (demo_fields ''#0a5c8a'' '' Perl '' [] [] [] ''title1'') \<noteq> []
   \<and> (\<exists>c' pre d post.
         renderToContext mono_metrics (demo_fields ''#0a5c8a'' '' Perl '' [] [] []) (demo_state 1)
           fresh_ctx demo_canvas = Inr c'
         \<and> calls c' = calls fresh_ctx @ pre @ FillText d ''P'' 128 148 # post
         \<and> list_all (\<lambda>k. \<not> is_text k) pre \<and> textBaseline d = Top)
   \<and> trim (demo_fields ''#0a5c8a'' [] ''School'' [] [] ''title1'') = []
   \<and> trim (demo_fields ''#0a5c8a'' [] ''School'' [] [] ''title2'') \<noteq> []
   \<and> (\<exists>c' pre d post.
         renderToContext mono_metrics (demo_fields ''#0a5c8a'' [] ''School'' [] []) (demo_state 1)
           fresh_ctx demo_canvas = Inr c'
         \<and> calls c' = calls fresh_ctx @ pre @ FillText d ''S'' 128 148 # post
         \<and> list_all (\<lambda>k. \<not> is_text k) pre \<and> textBaseline d = Top)
   \<and> trim (demo_fields ''#0a5c8a'' [] [] ''x'' [] ''title1'') = []
   \<and> trim (demo_fields ''#0a5c8a'' [] [] ''x'' [] ''title2'') = []
   \<and> trim (demo_fields ''#0a5c8a'' [] [] ''x'' [] ''subtitle'') \<noteq> []
   \<and> (\<exists>c' pre d post.
         renderToContext mono_metrics (demo_fields ''#0a5c8a'' [] [] ''x'' []) (demo_state 1)
           fresh_ctx demo_canvas = Inr c'
         \<and> calls c' = calls fresh_ctx @ pre @ FillText d ''x'' 128 196 # post
         \<and> list_all (\<lambda>k. \<not> is_text k) pre \<and> textBaseline d = Alphabetic)"
proof -
  have g: "0 < cwidth demo_canvas" "0 < cheight demo_canvas" "0 < nativeWidth (demo_state 1)"
    "0 < nativeHeight (demo_state 1)" "0 < scale (demo_state 1)"
    by (simp_all add: demo_state_def demo_canvas_def)
  have a: "trim (demo_fields ''#0a5c8a'' '' Perl '' [] [] [] ''title1'') = ''Perl''" by code_simp
  have b: "trim (demo_fields ''#0a5c8a'' [] ''School'' [] [] ''title1'') = []"
    "trim (demo_fields ''#0a5c8a'' [] ''School'' [] [] ''title2'') = ''School''" by code_simp+
  have s: "trim (demo_fields ''#0a5c8a'' [] [] ''x'' [] ''title1'') = []"
    "trim (demo_fields ''#0a5c8a'' [] [] ''x'' [] ''title2'') = []"
    "trim (demo_fields ''#0a5c8a'' [] [] ''x'' [] ''subtitle'') = ''x''" by code_simp+
  note w1 = cursor_start [OF g, where M = mono_metrics and c = fresh_ctx
      and el_value = "demo_fields ''#0a5c8a'' '' Perl '' [] [] []", unfolded Let_def a]
  note w2 = cursor_start [OF g, where M = mono_metrics and c = fresh_ctx
      and el_value = "demo_fields ''#0a5c8a'' [] ''School'' [] []", unfolded Let_def b]
  note w3 = cursor_start [OF g, where M = mono_metrics and c = fresh_ctx
      and el_value = "demo_fields ''#0a5c8a'' [] [] ''x'' []", unfolded Let_def s]
  from w1 have "\<exists>c' pre d post.
         renderToContext mono_metrics (demo_fields ''#0a5c8a'' '' Perl '' [] [] []) (demo_state 1)
           fresh_ctx demo_canvas = Inr c'
         \<and> calls c' = calls fresh_ctx @ pre @ FillText d ''P'' 128 148 # post
         \<and> list_all (\<lambda>k. \<not> is_text k) pre \<and> textBaseline d = Top"
    by (simp add: demo_state_def round_js_def)
  moreover from w2 have "\<exists>c' pre d post.
         renderToContext mono_metrics (demo_fields ''#0a5c8a'' [] ''School'' [] []) (demo_state 1)
           fresh_ctx demo_canvas = Inr c'
         \<and> calls c' = calls fresh_ctx @ pre @ FillText d ''S'' 128 148 # post
         \<and> list_all (\<lambda>k. \<not> is_text k) pre \<and> textBaseline d = Top"
    by (simp add: demo_state_def round_js_def)
  moreover from w3 have "\<exists>c' pre d post.
         renderToContext mono_metrics (demo_fields ''#0a5c8a'' [] [] ''x'' []) (demo_state 1)
           fresh_ctx demo_canvas = Inr c'
         \<and> calls c' = calls fresh_ctx @ pre @ FillText d ''x'' 128 196 # post
         \<and> list_all (\<lambda>k. \<not> is_text k) pre \<and> textBaseline d = Alphabetic"
    by (simp add: demo_state_def round_js_def)
  ultimately show ?thesis using g by (simp only: a b s) simp
qed

text \<open>
  C2, as stated, fails. With the tint \<^verbatim>\<open>#ff0000\<close> and the subtitle "x" the pass fills the
  subtitle in \<^verbatim>\<open>#f0f0f0\<close>, while the tint adjusted by -0.06 is \<^verbatim>\<open>#f00000\<close>.
\<close>

theorem subtitle_fill_counterexample:
  "renderToContext mono_metrics (demo_fields ''#ff0000'' [] [] ''x'' []) (demo_state 1) fresh_ctx
     demo_canvas =
   Inr (fresh_ctx \<lparr>calls :=
          [Save,
           FillRect
            \<lparr>font = \<lparr>fweight = ''normal'', fsize = 10, ffamily = ''sans-serif''\<rparr>,
               fillStyle = ''#ff0000'', textBaseline = Alphabetic,
               globalAlpha = 1, globalCompositeOperation = SourceOver\<rparr>
            0 0 1600 2560,
           FillRect
            \<lparr>font = \<lparr>fweight = ''normal'', fsize = 10, ffamily = ''sans-serif''\<rparr>,
               fillStyle = ''#ff0000'', textBaseline = Alphabetic,
               globalAlpha = 3 / 10, globalCompositeOperation = SourceOver\<rparr>
            0 0 1600 2560,
           MeasureText \<lparr>fweight = ''normal'', fsize = 120, ffamily = ''TrueNo-Regular''\<rparr> ''x'',
           FillText
            \<lparr>font = \<lparr>fweight = ''normal'', fsize = 120, ffamily = ''TrueNo-Regular''\<rparr>,
               fillStyle = ''#f0f0f0'', textBaseline = Alphabetic,
               globalAlpha = 1, globalCompositeOperation = SourceOver\<rparr>
            ''x'' 128 196,
           Restore]\<rparr>)
   \<and> colorLuminance ''#ff0000'' (- 0.06) = Inr ''#f00000''"
  by code_simp

text \<open>
  C2, amended. When the subtitle field is non-empty (after trimming) in a pass past the
  guard, the compositor draws the subtitle at the left padding on the alphabetic
  baseline with the fill colour that the luminance helper gives for the white ink
  \<^verbatim>\<open>#ffffff\<close> at -0.06, which is \<^verbatim>\<open>#f0f0f0\<close>, whatever the tint.
\<close>

theorem subtitle_fill:
  assumes "0 < cwidth tc" "0 < cheight tc" "0 < nativeWidth st" "0 < nativeHeight st" "0 < scale st"
    and "trim (el_value ''subtitle'') \<noteq> []"
  shows "\<exists>c' pre d y post.
           renderToContext M el_value st c tc = Inr c'
         \<and> calls c' = calls c @ pre
               @ FillText d (trim (el_value ''subtitle''))
                   (real_of_int (round_js (real_of_int (nativeWidth st) * 0.08)) * scale st) y
               # post
         \<and> textBaseline d = Alphabetic
         \<and> colorLuminance ''#ffffff'' (- 0.06) = Inr (fillStyle d)
         \<and> fillStyle d = ''#f0f0f0''"
proof -
  define sc where "sc = scale st"
  define pad where "pad = real_of_int (round_js (real_of_int (nativeWidth st) * 0.08)) * scale st"
  define colW where
    "colW = real_of_int (nativeWidth st - round_js (real_of_int (nativeWidth st) * 0.08) * 2) * scale st"
  define tf where "tf = or_default (titleFont st) ''TrueNo-Black''"
  define bf where "bf = or_default (bodyFont st) ''TrueNo-Book''"
  define title1 where "title1 = trim (el_value ''title1'')"
  define title2 where "title2 = trim (el_value ''title2'')"
  define sub where "sub = trim (el_value ''subtitle'')"
  have "\<exists>c0 bg p3 tail c'.
           calls c0 = calls c @ bg \<and> list_all (\<lambda>k. \<not> is_text k) bg
         \<and> render_subtitle M sub ''#ffffff'' pad colW bf sc
              (render_title2 M title2 pad colW (260 * sc) (- 2 * sc) tf sc
                 (render_title1 M title1 pad colW (260 * sc) (- 2 * sc) tf sc
                    (c0, pad + 20 * sc))) = Inr p3
         \<and> renderToContext M el_value st c tc = Inr c' \<and> calls c' = calls (fst p3) @ tail"
    unfolding sc_def pad_def colW_def tf_def bf_def title1_def title2_def sub_def
    by (rule renderToContext_log [OF assms(1-5)])
  then obtain c0 bg p3 tail c' where
    bg: "calls c0 = calls c @ bg" and
    p3: "render_subtitle M sub ''#ffffff'' pad colW bf sc
           (render_title2 M title2 pad colW (260 * sc) (- 2 * sc) tf sc
              (render_title1 M title1 pad colW (260 * sc) (- 2 * sc) tf sc (c0, pad + 20 * sc))) = Inr p3" and
    r: "renderToContext M el_value st c tc = Inr c'" "calls c' = calls (fst p3) @ tail"
    by blast
  define p1 where "p1 = render_title1 M title1 pad colW (260 * sc) (- 2 * sc) tf sc (c0, pad + 20 * sc)"
  define p2 where "p2 = render_title2 M title2 pad colW (260 * sc) (- 2 * sc) tf sc p1"
  have "\<exists>ys. calls (fst p1) = calls (fst (c0, pad + 20 * sc)) @ ys"
    unfolding p1_def by (rule render_title1_calls)
  then obtain y1 where y1: "calls (fst p1) = calls c0 @ y1" by auto
  obtain y2 where y2: "calls (fst p2) = calls (fst p1) @ y2"
    unfolding p2_def using render_title2_calls by blast
  from assms(6) have ne: "sub \<noteq> []" by (simp add: sub_def)
  from render_subtitle_white [OF ne, of M pad colW bf sc p2]
  obtain q ms d where q: "render_subtitle M sub ''#ffffff'' pad colW bf sc p2 = Inr q"
      "calls (fst q) = calls (fst p2) @ ms @ [FillText d sub pad (snd p2 + 48 * sc)]"
      "fillStyle d = ''#f0f0f0''" "textBaseline d = Alphabetic"
    by blast
  from q(1) p3 have "q = p3" by (simp add: p2_def p1_def)
  with q(2) have "calls c' = calls c @ (bg @ y1 @ y2 @ ms) @ FillText d sub pad (snd p2 + 48 * sc) # tail"
    by (simp add: r(2) y2 y1 bg)
  with r(1) q(3,4) dimmed_white show ?thesis
    unfolding sub_def [symmetric] pad_def [symmetric]
    by (intro exI [of _ c'] exI [of _ "bg @ y1 @ y2 @ ms"] exI [of _ d] exI [of _ "snd p2 + 48 * sc"]
        exI [of _ tail]) (simp only: simp_thms)
qed

theorem subtitle_fill_witness:
  "0 < cwidth demo_canvas \<and> 0 < cheight demo_canvas \<and> 0 < nativeWidth (demo_state 1)
   \<and> 0 < nativeHeight (demo_state 1) \<and> 0 < scale (demo_state 1)
   \<and> trim (demo_fields ''#ff0000'' [] [] ''x'' [] ''subtitle'') \<noteq> []
   \<and> (\<exists>c' pre d y post.
         renderToContext mono_metrics (demo_fields ''#ff0000'' [] [] ''x'' []) (demo_state 1)
           fresh_ctx demo_canvas = Inr c'
         \<and> calls c' = calls fresh_ctx @ pre @ FillText d ''x'' 128 y # post
         \<and> textBaseline d = Alphabetic
         \<and> colorLuminance ''#ffffff'' (- 0.06) = Inr (fillStyle d)
         \<and> fillStyle d = ''#f0f0f0'')"
proof -
  have g: "0 < cwidth demo_canvas" "0 < cheight demo_canvas" "0 < nativeWidth (demo_state 1)"
    "0 < nativeHeight (demo_state 1)" "0 < scale (demo_state 1)"
    by (simp_all add: demo_state_def demo_canvas_def)
  have s: "trim (demo_fields ''#ff0000'' [] [] ''x'' [] ''subtitle'') = ''x''" by code_simp
  then have n: "trim (demo_fields ''#ff0000'' [] [] ''x'' [] ''subtitle'') \<noteq> []" by simp
  have pd: "real_of_int (round_js (real_of_int (nativeWidth (demo_state 1)) * 0.08)) * scale (demo_state 1) = 128"
    by (simp add: demo_state_def round_js_def)
  note w = subtitle_fill [where M = mono_metrics and c = fresh_ctx and tc = demo_canvas
      and st = "demo_state 1" and el_value = "demo_fields ''#ff0000'' [] [] ''x'' []", OF g n,
      unfolded s pd]
  from w g n show ?thesis by (simp only: simp_thms)
qed




section \<open>Properties of the export\<close>

text \<open>A compose pass never raises.\<close>

lemma renderToContext_total: "\<exists>c'. renderToContext M el_value st c tc = Inr c'"
proof (cases "0 < cwidth tc \<and> 0 < cheight tc \<and> 0 < nativeWidth st \<and> 0 < nativeHeight st \<and> 0 < scale st")
  case True
  then have g: "0 < cwidth tc" "0 < cheight tc" "0 < nativeWidth st" "0 < nativeHeight st" "0 < scale st"
    by simp_all
  from renderToContext_log [OF g, where M = M and el_value = el_value and c = c]
  show ?thesis by blast
next
  case False
  then show ?thesis by (auto simp: renderToContext_def Let_def)
qed

text \<open>
  C4. After an export at native resolution the scale in the render state, and the whole
  render state, is what it was before the export began, on every way out: the early
  return, the normal return, and an exception raised in the \<^verbatim>\<open>try\<close> block. When
  \<^verbatim>\<open>toDataURL\<close> raises, after the pass has drawn at scale 1, the export raises that
  exception and the state is as before.
\<close>

theorem export_restores_scale:
  "scale (snd (exportAtNativeResolution M el_value toDataURL st)) = scale st
   \<and> snd (exportAtNativeResolution M el_value toDataURL st) = st
   \<and> (nativeWidth st \<noteq> 0 \<and> nativeHeight st \<noteq> 0 \<and> (\<forall>cv drawn. toDataURL cv drawn = Inl e)
        \<longrightarrow> exportAtNativeResolution M el_value toDataURL st = (Inl e, st))"
proof -
  have a: "snd (exportAtNativeResolution M el_value toDataURL st) = st"
    by (simp add: exportAtNativeResolution_def Let_def)
  have b: "exportAtNativeResolution M el_value toDataURL st = (Inl e, st)"
    if "nativeWidth st \<noteq> 0" "nativeHeight st \<noteq> 0" "\<forall>cv drawn. toDataURL cv drawn = Inl e"
  proof -
    obtain drawn where "renderToContext M el_value (st\<lparr>scale := 1\<rparr>) fresh_ctx
          \<lparr>cwidth = nativeWidth st, cheight = nativeHeight st\<rparr> = Inr drawn"
      using renderToContext_total by blast
    with that show ?thesis
      by (simp add: exportAtNativeResolution_def Let_def)
  qed
  from a b show ?thesis by simp
qed

theorem export_restores_scale_witness:
  "nativeWidth (demo_state (1 / 4)) \<noteq> 0 \<and> nativeHeight (demo_state (1 / 4)) \<noteq> 0
   \<and> exportAtNativeResolution mono_metrics (demo_fields ''#0a5c8a'' ''Perl'' [] [] [])
        (\<lambda>cv drawn. Inl (DOMException ''SecurityError'')) (demo_state (1 / 4))
       = (Inl (DOMException ''SecurityError''), demo_state (1 / 4))
   \<and> scale (snd (exportAtNativeResolution mono_metrics (demo_fields ''#0a5c8a'' ''Perl'' [] [] [])
        (\<lambda>cv drawn. Inr ''data:image/png'') (demo_state (1 / 4)))) = 1 / 4"
proof -
  have n: "nativeWidth (demo_state (1 / 4)) \<noteq> 0 \<and> nativeHeight (demo_state (1 / 4)) \<noteq> 0"
    by (simp add: demo_state_def)
  have s: "scale (demo_state (1 / 4)) = 1 / 4" by (simp add: demo_state_def)
  from n s
    export_restores_scale [of mono_metrics "demo_fields ''#0a5c8a'' ''Perl'' [] [] []"
      "\<lambda>cv drawn. Inl (DOMException ''SecurityError'')" "demo_state (1 / 4)" "DOMException ''SecurityError''"]
    export_restores_scale [of mono_metrics "demo_fields ''#0a5c8a'' ''Perl'' [] [] []"
      "\<lambda>cv drawn. Inr ''data:image/png''" "demo_state (1 / 4)" "DOMException ''SecurityError''"]
  show ?thesis by simp
qed

end
